(* ===== verification/Prelude.thy ===== *)
theory Prelude
  imports Main "HOL-Library.Multiset"
begin

text \<open>
  Shared vocabulary of the development: the JavaScript values the todo application
  handles (numbers that may be \<open>NaN\<close>, strings that may be \<open>undefined\<close>), the
  operators it applies to them (\<open>-\<close>, \<open>||\<close>, truthiness, object spread), and generic
  lemmas on lists that the component theories share.
\<close>

named_theorems js_simps \<open>equations of the modelled JavaScript operators\<close>

subsection \<open>JavaScript values\<close>

text \<open>
  A JavaScript number in this program is either an integer (clock readings, ids,
  priority ranks, millisecond differences of dates, all below \<open>2^53\<close>, hence exact)
  or \<open>NaN\<close>, which arises when \<open>undefined\<close> takes part in a subtraction. The type
  \<open>js_num\<close> has \<open>None\<close> for \<open>NaN\<close>. A field that an object may lack is an
  \<open>option\<close>, with \<open>None\<close> for \<open>undefined\<close>.
\<close>

type_synonym js_num = "int option"

definition js_sub :: "int option \<Rightarrow> int option \<Rightarrow> js_num" where
  "js_sub a b = (case (a, b) of (Some x, Some y) \<Rightarrow> Some (x - y) | _ \<Rightarrow> None)"

text \<open>Truthiness of a value that is \<open>undefined\<close> or a string: only non-empty strings are truthy.\<close>

definition js_truthy_str :: "string option \<Rightarrow> bool" where
  "js_truthy_str v = (case v of None \<Rightarrow> False | Some s \<Rightarrow> s \<noteq> [])"

text \<open>\<open>v || d\<close> for such a value and a string default.\<close>

definition js_or :: "string option \<Rightarrow> string \<Rightarrow> string" where
  "js_or v d = (case v of Some s \<Rightarrow> if s \<noteq> [] then s else d | None \<Rightarrow> d)"

text \<open>
  Object spread \<open>{...o, ...p}\<close> field by field: a property present in \<open>p\<close> wins.
  \<open>spread_field\<close> is for a field \<open>o\<close> always has, \<open>spread_opt\<close> for one it may lack.
\<close>

definition spread_field :: "'a \<Rightarrow> 'a option \<Rightarrow> 'a" where
  "spread_field x p = (case p of None \<Rightarrow> x | Some v \<Rightarrow> v)"

definition spread_opt :: "'a option \<Rightarrow> 'a option \<Rightarrow> 'a option" where
  "spread_opt x p = (case p of None \<Rightarrow> x | Some v \<Rightarrow> Some v)"

lemma js_sub_Some [simp, js_simps]: "js_sub (Some x) (Some y) = Some (x - y)"
  and js_sub_None [simp, js_simps]: "js_sub None b = None" "js_sub a None = None"
  by (simp_all add: js_sub_def split: option.splits)

lemma js_truthy_str_simps [simp, js_simps]:
  "js_truthy_str None = False" "js_truthy_str (Some s) = (s \<noteq> [])"
  by (simp_all add: js_truthy_str_def)

lemma js_or_falsy [simp, js_simps]: "\<not> js_truthy_str v \<Longrightarrow> js_or v d = d"
  and js_or_truthy [simp, js_simps]: "js_truthy_str (Some s) \<Longrightarrow> js_or (Some s) d = s"
  by (auto simp: js_or_def split: option.splits)

lemma spread_simps [simp, js_simps]:
  "spread_field x None = x" "spread_field x (Some v) = v"
  "spread_opt y None = y" "spread_opt y (Some v) = Some v"
  by (simp_all add: spread_field_def spread_opt_def)

subsection \<open>Lists updated where an element matches\<close>

text \<open>
  \<open>xs.map(x => P(x) ? f(x) : x)\<close> is the pattern of every in-place edit of the
  program; the lemmas below are the facts about it the components share.
\<close>

abbreviation map_where :: "('a \<Rightarrow> bool) \<Rightarrow> ('a \<Rightarrow> 'a) \<Rightarrow> 'a list \<Rightarrow> 'a list" where
  "map_where P f xs \<equiv> map (\<lambda>x. if P x then f x else x) xs"

lemma map_where_no_match [simp]:
  "\<forall>x\<in>set xs. \<not> P x \<Longrightarrow> map_where P f xs = xs"
  by (induction xs) auto

lemma map_where_twice:
  "(\<And>x. P (f x) = P x) \<Longrightarrow> map_where P g (map_where P f xs) = map_where P (g \<circ> f) xs"
  by (induction xs) auto

lemma map_where_map:
  "(\<And>x. h (f x) = h x) \<Longrightarrow> map h (map_where P f xs) = map h xs"
  by (induction xs) auto

text \<open>Token lists built under \<open>map_option\<close>, as the JSON lexer builds them.\<close>

lemma map_option_append_Nil [simp]: "map_option ((@) []) x = x"
  by (cases x) simp_all

lemma map_option_append_append [simp]:
  "map_option ((@) a) (map_option ((@) b) y) = map_option ((@) (a @ b)) y"
  by (cases y) simp_all

lemma map_option_Cons_append [simp]:
  "map_option (Cons t) (map_option ((@) b) y) = map_option ((@) (t # b)) y"
  by (cases y) simp_all

lemma map_option_append_Cons [simp]:
  "map_option ((@) a) (map_option (Cons t) y) = map_option ((@) (a @ [t])) y"
  by (cases y) simp_all

lemma list_all2_map_same: "list_all2 Q (map f xs) (map g xs) \<longleftrightarrow> (\<forall>x\<in>set xs. Q (f x) (g x))"
  by (induction xs) auto

end
