(* ===== verification/Todo.thy ===== *)
theory Todo
  imports Prelude
begin

text \<open>
  The task record of \<^verbatim>\<open>src/src/App.js\<close> as a JavaScript object. A task made by
  \<open>addTodo\<close> has every field; a task that came from the seed API
  (\<^verbatim>\<open>jsonplaceholder\<close> todos: \<open>userId\<close>, \<open>id\<close>, \<open>title\<close>, \<open>completed\<close>) is stored as
  it came and lacks \<open>createdAt\<close>, \<open>description\<close>, \<open>priority\<close> and \<open>dueDate\<close>; those
  fields are options, \<open>None\<close> for \<open>undefined\<close>. Also here: the form input of
  \<open>addTodo\<close>, the partial record \<open>newData\<close> of \<open>updateTodo\<close> and the object spread
  that merges it.
\<close>

record todo =
  todo_id :: int
  createdAt :: "int option"
  title :: string
  description :: "string option"
  priority :: "string option"
  dueDate :: "string option"
  completed :: bool
  userId :: "int option"

text \<open>
  \<open>todoData\<close> as the add form hands it to \<open>addTodo\<close>: a title and optional
  description, priority and due date (absent or empty when the user left them blank).
\<close>

record todo_input =
  in_title :: string
  in_description :: "string option"
  in_priority :: "string option"
  in_dueDate :: "string option"

text \<open>
  The object literal of \<open>addTodo\<close> (App.js lines 48--56). \<open>Date.now()\<close> is called
  twice, once for \<open>id\<close> and once for \<open>createdAt\<close>: two clock readings, which differ
  when the millisecond turns between the calls.
\<close>

definition newTodo :: "int \<Rightarrow> int \<Rightarrow> todo_input \<Rightarrow> todo" where
  "newTodo now_id now_created d =
     \<lparr>todo_id = now_id,
      createdAt = Some now_created,
      title = in_title d,
      description = Some (js_or (in_description d) ''''),
      priority = Some (js_or (in_priority d) ''medium''),
      dueDate = Some (js_or (in_dueDate d) ''''),
      completed = False,
      userId = None\<rparr>"

text \<open>A record as the seed API returns it.\<close>

definition remote_todo :: "int \<Rightarrow> int \<Rightarrow> string \<Rightarrow> bool \<Rightarrow> todo" where
  "remote_todo uid i t c =
     \<lparr>todo_id = i, createdAt = None, title = t, description = None, priority = None,
      dueDate = None, completed = c, userId = Some uid\<rparr>"

text \<open>
  \<open>newData\<close> of \<open>updateTodo\<close>: the properties the caller supplies, \<open>None\<close> for an
  absent one. Any property of a task may be present, the id included.
\<close>

record patch =
  p_id :: "int option"
  p_createdAt :: "int option"
  p_title :: "string option"
  p_description :: "string option"
  p_priority :: "string option"
  p_dueDate :: "string option"
  p_completed :: "bool option"
  p_userId :: "int option"

definition empty_patch :: patch where
  "empty_patch = \<lparr>p_id = None, p_createdAt = None, p_title = None, p_description = None,
     p_priority = None, p_dueDate = None, p_completed = None, p_userId = None\<rparr>"

text \<open>\<open>{ ...todo, ...newData }\<close> (App.js line 74).\<close>

definition spread_todo :: "todo \<Rightarrow> patch \<Rightarrow> todo" where
  "spread_todo t p =
     \<lparr>todo_id = spread_field (todo_id t) (p_id p),
      createdAt = spread_opt (createdAt t) (p_createdAt p),
      title = spread_field (title t) (p_title p),
      description = spread_opt (description t) (p_description p),
      priority = spread_opt (priority t) (p_priority p),
      dueDate = spread_opt (dueDate t) (p_dueDate p),
      completed = spread_field (completed t) (p_completed p),
      userId = spread_opt (userId t) (p_userId p)\<rparr>"

lemma spread_todo_empty [simp]: "spread_todo t empty_patch = t"
  by (simp add: spread_todo_def empty_patch_def)

lemma todo_id_spread_todo [simp]: "p_id p = None \<Longrightarrow> todo_id (spread_todo t p) = todo_id t"
  by (simp add: spread_todo_def)

lemma newTodo_fields [simp]:
  "todo_id (newTodo a b d) = a" "createdAt (newTodo a b d) = Some b"
  "title (newTodo a b d) = in_title d" "completed (newTodo a b d) = False"
  "userId (newTodo a b d) = None"
  "description (newTodo a b d) = Some (js_or (in_description d) '''')"
  "priority (newTodo a b d) = Some (js_or (in_priority d) ''medium'')"
  "dueDate (newTodo a b d) = Some (js_or (in_dueDate d) '''')"
  by (simp_all add: newTodo_def)

lemma remote_todo_fields [simp]:
  "todo_id (remote_todo u i t c) = i" "createdAt (remote_todo u i t c) = None"
  "title (remote_todo u i t c) = t" "completed (remote_todo u i t c) = c"
  "description (remote_todo u i t c) = None" "priority (remote_todo u i t c) = None"
  "dueDate (remote_todo u i t c) = None" "userId (remote_todo u i t c) = Some u"
  by (simp_all add: remote_todo_def)

end
