(* ===== verification/ReactState.thy ===== *)
theory ReactState
  imports Prelude
begin

text \<open>
  React's \<open>useState\<close> setter as the program uses it. A call \<open>setTodos(v)\<close> queues
  the value \<open>v\<close>, a call \<open>setTodos(prev => f(prev))\<close> queues the function \<open>f\<close>; the
  calls made before the next render are applied in order to the state of the last
  render. A handler that computes its value from the variable \<open>todos\<close> reads the
  snapshot of that render, not the updates queued before it.
\<close>

datatype 'a state_update = Set_state 'a | Update_state "'a \<Rightarrow> 'a"

fun apply_update :: "'a \<Rightarrow> 'a state_update \<Rightarrow> 'a" where
  "apply_update s (Set_state v) = v"
| "apply_update s (Update_state f) = f s"

definition flush_updates :: "'a \<Rightarrow> 'a state_update list \<Rightarrow> 'a" where
  "flush_updates s us = foldl apply_update s us"

lemma flush_updates_simps [simp]:
  "flush_updates s [] = s"
  "flush_updates s (u # us) = flush_updates (apply_update s u) us"
  by (simp_all add: flush_updates_def)

lemma flush_updates_append [simp]:
  "flush_updates s (us @ vs) = flush_updates (flush_updates s us) vs"
  by (simp add: flush_updates_def)

text \<open>A queued value discards every update queued before it.\<close>

lemma flush_updates_Set_state:
  "flush_updates s (us @ Set_state v # vs) = flush_updates v vs"
  by simp

end
