(* ===== verification/Store.thy ===== *)
theory Store
  imports Todo ReactState
begin

text \<open>
  The Store: the four mutation handlers of \<^verbatim>\<open>src/src/App.js\<close> (\<open>addTodo\<close>,
  \<open>toggleTodo\<close>, \<open>deleteTodo\<close>, \<open>updateTodo\<close>, lines 47--76). Each is modelled by
  the list it hands to \<open>setTodos\<close>, and \<open>setTodos_call\<close> says how it hands it over:
  \<open>addTodo\<close> and \<open>toggleTodo\<close> pass a value computed from the render's snapshot
  \<open>todos\<close>, \<open>deleteTodo\<close> and \<open>updateTodo\<close> pass an updater of the pending state.
  The datatype \<open>action\<close> is the interface through which the add form and the item
  editor call them.
\<close>

definition addTodo :: "int \<Rightarrow> int \<Rightarrow> todo_input \<Rightarrow> todo list \<Rightarrow> todo list" where
  "addTodo now_id now_created todoData todos = todos @ [newTodo now_id now_created todoData]"

definition toggleTodo :: "int \<Rightarrow> todo list \<Rightarrow> todo list" where
  "toggleTodo i todos =
     map (\<lambda>t. if todo_id t = i then t\<lparr>completed := \<not> completed t\<rparr> else t) todos"

definition deleteTodo :: "int \<Rightarrow> todo list \<Rightarrow> todo list" where
  "deleteTodo i prev = filter (\<lambda>t. todo_id t \<noteq> i) prev"

definition updateTodo :: "int \<Rightarrow> patch \<Rightarrow> todo list \<Rightarrow> todo list" where
  "updateTodo i newData prev = map (\<lambda>t. if todo_id t = i then spread_todo t newData else t) prev"

datatype action =
    Add int int todo_input
  | Toggle int
  | Delete int
  | Update int patch

text \<open>The call of \<open>setTodos\<close> each handler makes, given the render's \<open>todos\<close>.\<close>

fun setTodos_call :: "todo list \<Rightarrow> action \<Rightarrow> todo list state_update" where
  "setTodos_call todos (Add a b d) = Set_state (addTodo a b d todos)"
| "setTodos_call todos (Toggle i) = Set_state (toggleTodo i todos)"
| "setTodos_call todos (Delete i) = Update_state (deleteTodo i)"
| "setTodos_call todos (Update i p) = Update_state (updateTodo i p)"

text \<open>The effect of one handler call when it is the only update before the next render.\<close>

fun apply_action :: "action \<Rightarrow> todo list \<Rightarrow> todo list" where
  "apply_action (Add a b d) todos = addTodo a b d todos"
| "apply_action (Toggle i) todos = toggleTodo i todos"
| "apply_action (Delete i) todos = deleteTodo i todos"
| "apply_action (Update i p) todos = updateTodo i p todos"

fun reads_snapshot :: "action \<Rightarrow> bool" where
  "reads_snapshot (Add _ _ _) = True"
| "reads_snapshot (Toggle _) = True"
| "reads_snapshot _ = False"

text \<open>
  The ids are pairwise distinct: the spec's best-effort invariant. \<open>fresh_action\<close>
  is what an action needs to keep it: a new id that no task has, and no id in a patch.
\<close>

abbreviation ids_distinct :: "todo list \<Rightarrow> bool" where
  "ids_distinct todos \<equiv> distinct (map todo_id todos)"

fun fresh_action :: "action \<Rightarrow> todo list \<Rightarrow> bool" where
  "fresh_action (Add a _ _) todos = (a \<notin> set (map todo_id todos))"
| "fresh_action (Update _ p) todos = (p_id p = None)"
| "fresh_action _ todos = True"

lemmas store_defs = addTodo_def toggleTodo_def deleteTodo_def updateTodo_def

subsection \<open>Shared facts\<close>

lemma setTodos_call_alone [simp]: "apply_update todos (setTodos_call todos a) = apply_action a todos"
  by (cases a) simp_all

lemma map_todo_id_toggleTodo [simp]: "map todo_id (toggleTodo i todos) = map todo_id todos"
  by (simp add: toggleTodo_def map_where_map)

lemma map_todo_id_updateTodo [simp]:
  "p_id p = None \<Longrightarrow> map todo_id (updateTodo i p todos) = map todo_id todos"
  by (induction todos) (simp_all add: updateTodo_def)

lemma deleteTodo_addTodo_fresh:
  assumes "a \<notin> set (map todo_id todos)"
  shows "deleteTodo a (addTodo a b d todos) = todos"
proof -
  from assms have "\<forall>t\<in>set todos. todo_id t \<noteq> a" by auto
  then show ?thesis by (simp add: store_defs filter_True)
qed

lemma distinct_deleteTodo [simp]: "ids_distinct todos \<Longrightarrow> ids_distinct (deleteTodo i todos)"
  by (simp add: deleteTodo_def distinct_map_filter)

subsection \<open>Properties of the handlers\<close>

text \<open>
  C9: an id that no task has makes \<open>toggleTodo\<close>, \<open>deleteTodo\<close> and \<open>updateTodo\<close>
  leave the list as it is.
\<close>

theorem absent_id_noop:
  assumes "i \<notin> set (map todo_id todos)"
  shows "toggleTodo i todos = todos \<and> deleteTodo i todos = todos \<and> updateTodo i p todos = todos"
proof -
  from assms have "\<forall>t\<in>set todos. todo_id t \<noteq> i" by auto
  then show ?thesis by (simp add: store_defs filter_True)
qed

theorem absent_id_noop_witness:
  "toggleTodo 7 [remote_todo 1 1 ''a'' False] = [remote_todo 1 1 ''a'' False] \<and>
   deleteTodo 7 [remote_todo 1 1 ''a'' False] = [remote_todo 1 1 ''a'' False] \<and>
   updateTodo 7 empty_patch [remote_todo 1 1 ''a'' False] = [remote_todo 1 1 ''a'' False]"
  by (rule absent_id_noop) simp

text \<open>
  C11: \<open>addTodo\<close> appends one task; where the form left description, priority and
  due date blank, the task has the defaults \<open>''''\<close>, \<open>''medium''\<close>, \<open>''''\<close>, is not
  completed, and takes its id and creation time from the two clock readings.
\<close>

theorem addTodo_defaults:
  assumes "\<not> js_truthy_str (in_description d)" and "\<not> js_truthy_str (in_priority d)"
    and "\<not> js_truthy_str (in_dueDate d)"
  shows "addTodo a b d todos = todos @
     [\<lparr>todo_id = a, createdAt = Some b, title = in_title d, description = Some '''',
       priority = Some ''medium'', dueDate = Some '''', completed = False, userId = None\<rparr>]"
  using assms by (simp add: addTodo_def newTodo_def)

theorem addTodo_defaults_witness:
  "addTodo 1700000000000 1700000000000
     \<lparr>in_title = ''Buy milk'', in_description = None, in_priority = None, in_dueDate = None\<rparr> [] =
   [\<lparr>todo_id = 1700000000000, createdAt = Some 1700000000000, title = ''Buy milk'',
     description = Some '''', priority = Some ''medium'', dueDate = Some '''',
     completed = False, userId = None\<rparr>]"
  using addTodo_defaults [of "\<lparr>in_title = ''Buy milk'', in_description = None,
      in_priority = None, in_dueDate = None\<rparr>" 1700000000000 1700000000000 "[]"]
  by simp

text \<open>C12: toggling the same id twice restores the list.\<close>

theorem toggle_involution: "toggleTodo i (toggleTodo i todos) = todos"
  by (induction todos) (simp_all add: toggleTodo_def)

text \<open>
  C13: \<open>toggleTodo\<close> flips \<open>completed\<close> of exactly the tasks with the id and changes
  no other field of any task.
\<close>

theorem toggle_changes_only_completed:
  "map completed (toggleTodo i todos) =
     map (\<lambda>t. if todo_id t = i then \<not> completed t else completed t) todos \<and>
   map (\<lambda>t. t\<lparr>completed := False\<rparr>) (toggleTodo i todos) = map (\<lambda>t. t\<lparr>completed := False\<rparr>) todos"
  by (induction todos) (simp_all add: toggleTodo_def)

text \<open>
  C15: with distinct ids, \<open>deleteTodo\<close> of the id of a task removes that task and
  only it.
\<close>

theorem delete_removes_one:
  assumes "ids_distinct (xs @ t # ys)"
  shows "deleteTodo (todo_id t) (xs @ t # ys) = xs @ ys"
proof -
  from assms have "\<forall>u\<in>set xs. todo_id u \<noteq> todo_id t" "\<forall>u\<in>set ys. todo_id u \<noteq> todo_id t"
    by (auto simp: image_iff)
  then show ?thesis by (simp add: deleteTodo_def filter_True)
qed

theorem delete_removes_one_witness:
  "deleteTodo 2 [remote_todo 1 1 ''a'' False, remote_todo 1 2 ''b'' True, remote_todo 1 3 ''c'' False] =
   [remote_todo 1 1 ''a'' False, remote_todo 1 3 ''c'' False]"
  using delete_removes_one [of "[remote_todo 1 1 ''a'' False]" "remote_todo 1 2 ''b'' True"
      "[remote_todo 1 3 ''c'' False]"]
  by simp

text \<open>
  C16: every handler keeps the ids distinct when the action is fresh: an added task
  gets an id no task has, and a patch carries no id.
\<close>

theorem apply_action_ids_distinct:
  assumes "ids_distinct todos" and "fresh_action act todos"
  shows "ids_distinct (apply_action act todos)"
  using assms by (cases act) (simp_all add: addTodo_def)

theorem apply_action_ids_distinct_witness:
  "ids_distinct (apply_action (Add 5 5 \<lparr>in_title = ''x'', in_description = None, in_priority = None,
      in_dueDate = None\<rparr>) [remote_todo 1 1 ''a'' False])"
  by (rule apply_action_ids_distinct) simp_all

text \<open>
  C17: within one batch of updates, a handler that reads the snapshot (\<open>addTodo\<close>,
  \<open>toggleTodo\<close>) discards every update queued before it: the batch ends as if it had
  been the only call.
\<close>

theorem snapshot_handler_discards_batch:
  assumes "reads_snapshot act"
  shows "flush_updates todos (us @ [setTodos_call todos act]) = apply_action act todos"
  using assms by (cases act) simp_all

theorem snapshot_handler_discards_batch_witness:
  "flush_updates [] [setTodos_call [] (Add 1 1 \<lparr>in_title = ''a'', in_description = None,
        in_priority = None, in_dueDate = None\<rparr>),
     setTodos_call [] (Add 2 2 \<lparr>in_title = ''b'', in_description = None,
        in_priority = None, in_dueDate = None\<rparr>)] =
   [newTodo 2 2 \<lparr>in_title = ''b'', in_description = None, in_priority = None, in_dueDate = None\<rparr>]"
  using snapshot_handler_discards_batch [of "Add 2 2 \<lparr>in_title = ''b'', in_description = None,
        in_priority = None, in_dueDate = None\<rparr>" "[]"
      "[setTodos_call [] (Add 1 1 \<lparr>in_title = ''a'', in_description = None,
        in_priority = None, in_dueDate = None\<rparr>)]"]
  by (simp add: addTodo_def)

text \<open>
  C18: the updater handlers (\<open>deleteTodo\<close>, \<open>updateTodo\<close>) compose: a batch of them
  applies each in turn to the pending state, whatever snapshot they were created in.
\<close>

theorem updater_handlers_compose:
  assumes "\<forall>a\<in>set acts. \<not> reads_snapshot a"
  shows "flush_updates todos (map (setTodos_call snap) acts) = fold apply_action acts todos"
  using assms
proof (induction acts arbitrary: todos)
  case Nil
  then show ?case by simp
next
  case (Cons a acts)
  then have "setTodos_call snap a = Update_state (apply_action a)"
    by (cases a) (simp_all add: fun_eq_iff)
  with Cons show ?case by simp
qed

theorem updater_handlers_compose_witness:
  "flush_updates [remote_todo 1 1 ''a'' False, remote_todo 1 2 ''b'' False]
     (map (setTodos_call []) [Delete 1, Delete 2]) = []"
  using updater_handlers_compose [of "[Delete 1, Delete 2]"
      "[remote_todo 1 1 ''a'' False, remote_todo 1 2 ''b'' False]" "[]"]
  by (simp add: deleteTodo_def)

end
