(* ===== verification/StoreSpec.thy ===== *)
theory StoreSpec
  imports Store
begin

text \<open>
  An abstract specification of the Store (spec section 4.1): the tasks as a map from
  id to task, on which \<open>toggle\<close> flips the task with the id, \<open>delete\<close> removes it,
  \<open>update\<close> merges the patch into it and \<open>add\<close> inserts a task under its id. The
  abstraction function \<open>store_abs\<close> reads the list as such a map (the first task with
  an id wins, as \<open>map_of\<close> does). Also here: the shape of a task made by the form,
  which every handler keeps.
\<close>

type_synonym store_map = "int \<rightharpoonup> todo"

definition store_abs :: "todo list \<Rightarrow> store_map" where
  "store_abs todos = map_of (map (\<lambda>t. (todo_id t, t)) todos)"

definition abs_toggle :: "int \<Rightarrow> store_map \<Rightarrow> store_map" where
  "abs_toggle i m = (case m i of None \<Rightarrow> m | Some t \<Rightarrow> m(i \<mapsto> t\<lparr>completed := \<not> completed t\<rparr>))"

definition abs_delete :: "int \<Rightarrow> store_map \<Rightarrow> store_map" where
  "abs_delete i m = m(i := None)"

definition abs_update :: "int \<Rightarrow> patch \<Rightarrow> store_map \<Rightarrow> store_map" where
  "abs_update i p m = (case m i of None \<Rightarrow> m | Some t \<Rightarrow> m(i \<mapsto> spread_todo t p))"

definition abs_add :: "todo \<Rightarrow> store_map \<Rightarrow> store_map" where
  "abs_add t m = m(todo_id t \<mapsto> t)"

fun abs_action :: "action \<Rightarrow> store_map \<Rightarrow> store_map" where
  "abs_action (Add a b d) m = abs_add (newTodo a b d) m"
| "abs_action (Toggle i) m = abs_toggle i m"
| "abs_action (Delete i) m = abs_delete i m"
| "abs_action (Update i p) m = abs_update i p m"

text \<open>A task as the add form makes it: every optional field is present.\<close>

definition task_shaped :: "todo \<Rightarrow> bool" where
  "task_shaped t \<longleftrightarrow>
     createdAt t \<noteq> None \<and> description t \<noteq> None \<and> priority t \<noteq> None \<and> dueDate t \<noteq> None"

subsection \<open>Shared facts\<close>

lemma store_abs_map_where:
  assumes "\<And>t. todo_id (f t) = todo_id t"
  shows "store_abs (map (\<lambda>t. if todo_id t = i then f t else t) todos) =
           (store_abs todos)(i := map_option f (store_abs todos i))"
  using assms by (induction todos) (auto simp: store_abs_def fun_eq_iff)

lemma store_abs_filter:
  "store_abs (filter (\<lambda>t. todo_id t \<noteq> i) todos) = (store_abs todos)(i := None)"
  by (induction todos) (auto simp: store_abs_def fun_eq_iff)

lemma store_abs_snoc:
  assumes "todo_id t \<notin> set (map todo_id todos)"
  shows "store_abs (todos @ [t]) = (store_abs todos)(todo_id t \<mapsto> t)"
proof -
  from assms have "store_abs todos (todo_id t) = None"
    by (auto simp: store_abs_def map_of_eq_None_iff)
  then show ?thesis
    by (auto simp: store_abs_def fun_eq_iff map_add_def split: option.splits)
qed

lemma upd_map_option: "(m(i := map_option f (m i))) = (case m i of None \<Rightarrow> m | Some t \<Rightarrow> m(i \<mapsto> f t))"
  by (auto simp: fun_eq_iff split: option.splits)

lemma task_shaped_spread [simp]: "task_shaped t \<Longrightarrow> task_shaped (spread_todo t p)"
  by (simp add: task_shaped_def spread_todo_def spread_opt_def split: option.splits)

lemma task_shaped_newTodo [simp]: "task_shaped (newTodo a b d)"
  by (simp add: task_shaped_def)

lemma task_shaped_toggle [simp]: "task_shaped (t\<lparr>completed := c\<rparr>) = task_shaped t"
  by (simp add: task_shaped_def)


subsection \<open>The handlers implement the abstract store\<close>

text \<open>
  C36: read as a map from id to task, every handler does what the abstract store
  specifies (a refinement \<open>store_abs (f todos) = g (store_abs todos)\<close>), provided
  an added task gets a fresh id and a patch carries no id.
\<close>

theorem handlers_refine_store_map:
  assumes "fresh_action act todos"
  shows "store_abs (apply_action act todos) = abs_action act (store_abs todos)"
proof (cases act)
  case (Add a b d)
  with assms show ?thesis by (simp add: addTodo_def abs_add_def store_abs_snoc)
next
  case (Toggle i)
  then show ?thesis
    by (simp add: toggleTodo_def abs_toggle_def store_abs_map_where upd_map_option)
next
  case (Delete i)
  then show ?thesis by (simp add: deleteTodo_def abs_delete_def store_abs_filter)
next
  case (Update i p)
  with assms show ?thesis
    by (simp add: updateTodo_def abs_update_def store_abs_map_where upd_map_option)
qed

theorem handlers_refine_store_map_witness:
  "store_abs (apply_action (Add 7 7 \<lparr>in_title = ''x'', in_description = None, in_priority = None,
      in_dueDate = None\<rparr>) [remote_todo 1 1 ''a'' False]) =
   abs_action (Add 7 7 \<lparr>in_title = ''x'', in_description = None, in_priority = None,
      in_dueDate = None\<rparr>) (store_abs [remote_todo 1 1 ''a'' False])"
  by (rule handlers_refine_store_map) simp

text \<open>
  C37: the shape of a task made by the form (every optional field present) is kept
  by every handler: a list of such tasks stays one. Seeded tasks do not have this
  shape (C23).
\<close>

theorem handlers_keep_task_shape:
  assumes "\<forall>t\<in>set todos. task_shaped t"
  shows "\<forall>t\<in>set (apply_action act todos). task_shaped t"
  using assms
  by (cases act) (auto simp: store_defs)

theorem handlers_keep_task_shape_witness:
  "list_all task_shaped (apply_action (Toggle 5) [newTodo 5 5 \<lparr>in_title = ''x'', in_description = None,
      in_priority = None, in_dueDate = None\<rparr>])"
  using handlers_keep_task_shape [of "[newTodo 5 5 \<lparr>in_title = ''x'', in_description = None,
      in_priority = None, in_dueDate = None\<rparr>]" "Toggle 5"]
  by (simp add: list_all_iff)

end
