(* ===== verification/JsSort.thy ===== *)
theory JsSort
  imports Prelude
begin

text \<open>
  \<open>Array.prototype.sort(comparefn)\<close> as the program uses it. The comparator returns a
  JavaScript number; \<open>SortCompare\<close> reads \<open>NaN\<close> as \<open>+0\<close>. ECMAScript fixes the
  result only for a consistent comparator: then it is the stable sort by the order
  the comparator describes. For an inconsistent one the order is
  implementation-defined. The executable model \<open>js_sort\<close> is a stable insertion sort
  that, like the binary insertion of V8's TimSort, asks only whether
  \<open>comparefn(x, y) < 0\<close> for the element \<open>x\<close> being inserted. The main lemma says
  that wherever the comparator agrees in sign with a key, \<open>js_sort\<close> is the
  library's stable \<open>sort_key\<close>, so every conforming engine gives the same result.
\<close>

type_synonym 'a js_cmp = "'a \<Rightarrow> 'a \<Rightarrow> js_num"

definition sort_compare :: "'a js_cmp \<Rightarrow> 'a \<Rightarrow> 'a \<Rightarrow> int" where
  "sort_compare c x y = (case c x y of None \<Rightarrow> 0 | Some v \<Rightarrow> v)"

fun js_insert :: "'a js_cmp \<Rightarrow> 'a \<Rightarrow> 'a list \<Rightarrow> 'a list" where
  "js_insert c x [] = [x]"
| "js_insert c x (y # ys) =
     (if sort_compare c x y < 0 then x # y # ys else y # js_insert c x ys)"

definition js_sort :: "'a js_cmp \<Rightarrow> 'a list \<Rightarrow> 'a list" where
  "js_sort c xs = foldl (\<lambda>acc x. js_insert c x acc) [] xs"

text \<open>The comparator agrees in sign with the key \<open>f\<close> on the elements \<open>S\<close>.\<close>

definition sign_agrees :: "'a js_cmp \<Rightarrow> ('a \<Rightarrow> 'b::linorder) \<Rightarrow> 'a set \<Rightarrow> bool" where
  "sign_agrees c f S \<longleftrightarrow> (\<forall>x\<in>S. \<forall>y\<in>S. (sort_compare c x y < 0) = (f x < f y))"

subsection \<open>Permutation\<close>

lemma mset_js_insert [simp]: "mset (js_insert c x ys) = add_mset x (mset ys)"
  by (induction ys) auto

lemma js_sort_snoc [simp]: "js_sort c (xs @ [x]) = js_insert c x (js_sort c xs)"
  by (simp add: js_sort_def)

lemma js_sort_Nil [simp]: "js_sort c [] = []"
  by (simp add: js_sort_def)

lemma mset_js_sort [simp]: "mset (js_sort c xs) = mset xs"
  by (induction xs rule: rev_induct) auto

lemma set_js_sort [simp]: "set (js_sort c xs) = set xs"
  by (metis mset_js_sort set_mset_mset)

lemma length_js_sort [simp]: "length (js_sort c xs) = length xs"
  by (metis mset_js_sort size_mset)

lemma distinct_map_js_sort [simp]: "distinct (map f (js_sort c xs)) = distinct (map f xs)"
  by (rule mset_eq_imp_distinct_iff) (simp add: mset_map)

subsection \<open>Sortedness and stability under a sign-consistent comparator\<close>

lemma sign_agrees_subset: "sign_agrees c f S \<Longrightarrow> T \<subseteq> S \<Longrightarrow> sign_agrees c f T"
  by (auto simp: sign_agrees_def)

lemma set_js_insert [simp]: "set (js_insert c x ys) = insert x (set ys)"
  by (metis mset_js_insert set_mset_add_mset_insert set_mset_mset)

lemma sorted_js_insert:
  assumes "sorted (map f ys)" and "sign_agrees c f (insert x (set ys))"
  shows "sorted (map f (js_insert c x ys))"
  using assms
proof (induction ys)
  case Nil
  then show ?case by simp
next
  case (Cons y ys)
  have agree: "(sort_compare c x y < 0) = (f x < f y)"
    using Cons.prems(2) by (simp add: sign_agrees_def)
  have IH: "sorted (map f (js_insert c x ys))"
    using Cons.prems by (intro Cons.IH) (auto intro: sign_agrees_subset)
  show ?case
  proof (cases "sort_compare c x y < 0")
    case True
    with agree Cons.prems(1) show ?thesis by auto
  next
    case False
    with agree Cons.prems(1) IH show ?thesis by auto
  qed
qed

lemma filter_js_insert:
  assumes "sorted (map f ys)" and "sign_agrees c f (insert x (set ys))"
  shows "filter (\<lambda>z. k = f z) (js_insert c x ys) =
           (if k = f x then filter (\<lambda>z. k = f z) ys @ [x] else filter (\<lambda>z. k = f z) ys)"
  using assms
proof (induction ys)
  case Nil
  then show ?case by simp
next
  case (Cons y ys)
  have agree: "(sort_compare c x y < 0) = (f x < f y)"
    using Cons.prems(2) by (simp add: sign_agrees_def)
  show ?case
  proof (cases "sort_compare c x y < 0")
    case True
    with agree Cons.prems(1) have "\<forall>z\<in>set (y # ys). f x < f z" by auto
    then have "k = f x \<Longrightarrow> filter (\<lambda>z. k = f z) (y # ys) = []"
      by (auto simp: filter_empty_conv)
    with True show ?thesis by auto
  next
    case False
    have ih: "filter (\<lambda>z. k = f z) (js_insert c x ys) =
           (if k = f x then filter (\<lambda>z. k = f z) ys @ [x] else filter (\<lambda>z. k = f z) ys)"
      using Cons.prems by (intro Cons.IH) (auto intro: sign_agrees_subset)
    from False show ?thesis by (simp only: js_insert.simps if_False filter.simps ih) simp
  qed
qed

lemma sorted_js_sort:
  "sign_agrees c f (set xs) \<Longrightarrow> sorted (map f (js_sort c xs))"
proof (induction xs rule: rev_induct)
  case Nil
  then show ?case by simp
next
  case (snoc x xs)
  then have "sorted (map f (js_sort c xs))" by (auto intro: sign_agrees_subset)
  with snoc.prems show ?case by (auto intro: sorted_js_insert)
qed

lemma filter_js_sort:
  "sign_agrees c f (set xs) \<Longrightarrow> filter (\<lambda>z. k = f z) (js_sort c xs) = filter (\<lambda>z. k = f z) xs"
proof (induction xs rule: rev_induct)
  case Nil
  then show ?case by simp
next
  case (snoc x xs)
  then have IH: "filter (\<lambda>z. k = f z) (js_sort c xs) = filter (\<lambda>z. k = f z) xs"
    and sorted: "sorted (map f (js_sort c xs))"
    by (auto intro: sign_agrees_subset sorted_js_sort)
  from snoc.prems have "sign_agrees c f (insert x (set (js_sort c xs)))" by simp
  with sorted have "filter (\<lambda>z. k = f z) (js_sort c (xs @ [x])) =
      (if k = f x then filter (\<lambda>z. k = f z) (js_sort c xs) @ [x]
       else filter (\<lambda>z. k = f z) (js_sort c xs))"
    by (simp only: js_sort_snoc filter_js_insert)
  also have "\<dots> = filter (\<lambda>z. k = f z) (xs @ [x])"
    by (simp only: IH) simp
  finally show ?case .
qed

text \<open>
  The equivalence with the reference sort: for a comparator that agrees in sign with
  a key on the list, the insertion model is \<open>sort_key\<close>.
\<close>

lemma js_sort_sort_key:
  assumes "sign_agrees c f (set xs)"
  shows "js_sort c xs = sort_key f xs"
proof (rule properties_for_sort_key [symmetric])
  show "mset (js_sort c xs) = mset xs" by simp
  show "sorted (map f (js_sort c xs))" using assms by (rule sorted_js_sort)
  fix k
  show "filter (\<lambda>x. f k = f x) (js_sort c xs) = filter (\<lambda>x. f k = f x) xs"
    using assms by (rule filter_js_sort)
qed

end
