(* ===== verification/JsDate.thy ===== *)
theory JsDate
  imports Prelude
begin

text \<open>
  \<open>new Date(s)\<close> for the strings the due-date field holds. An
  \<^verbatim>\<open><input type="date">\<close> yields \<open>''''\<close> or a date-only ISO string
  \<^verbatim>\<open>YYYY-MM-DD\<close>, which ECMAScript reads as midnight UTC. The time value is
  milliseconds since the epoch; \<open>None\<close> stands for an invalid date (its time value is
  \<open>NaN\<close>). V8 checks only month \<open>1..12\<close> and day \<open>1..31\<close> and lets a day past the
  month's end run into the next month, as \<open>MakeDay\<close> does. Strings of any other
  format are invalid here; V8's legacy parser accepts more of them.
\<close>

definition digit_val :: "char \<Rightarrow> nat option" where
  "digit_val ch = (let n = of_char ch :: nat in if 48 \<le> n \<and> n \<le> 57 then Some (n - 48) else None)"

fun digits_val :: "nat \<Rightarrow> char list \<Rightarrow> nat option" where
  "digits_val acc [] = Some acc"
| "digits_val acc (ch # chs) =
     (case digit_val ch of None \<Rightarrow> None | Some d \<Rightarrow> digits_val (10 * acc + d) chs)"

definition parse_iso_date :: "string \<Rightarrow> (int \<times> int \<times> int) option" where
  "parse_iso_date s =
     (if length s = 10 \<and> s ! 4 = CHR ''-'' \<and> s ! 7 = CHR ''-'' then
        (case (digits_val 0 (take 4 s), digits_val 0 (take 2 (drop 5 s)), digits_val 0 (drop 8 s)) of
          (Some y, Some m, Some d) \<Rightarrow> Some (int y, int m, int d)
        | _ \<Rightarrow> None)
      else None)"

text \<open>Days from 1970-01-01 to a proleptic Gregorian date (the civil-calendar formula).\<close>

definition days_from_civil :: "int \<Rightarrow> int \<Rightarrow> int \<Rightarrow> int" where
  "days_from_civil y m d =
     (let y' = (if m \<le> 2 then y - 1 else y);
          era = y' div 400;
          yoe = y' - era * 400;
          mp = (m + 9) mod 12;
          doy = (153 * mp + 2) div 5 + d - 1;
          doe = yoe * 365 + yoe div 4 - yoe div 100 + doy
      in era * 146097 + doe - 719468)"

definition ms_per_day :: int where
  "ms_per_day = 86400000"

definition js_Date :: "string \<Rightarrow> int option" where
  "js_Date s =
     (case parse_iso_date s of
        Some (y, m, d) \<Rightarrow>
          if 1 \<le> m \<and> m \<le> 12 \<and> 1 \<le> d \<and> d \<le> 31
          then Some (days_from_civil y m d * ms_per_day) else None
      | None \<Rightarrow> None)"

lemma js_Date_epoch: "js_Date ''1970-01-01'' = Some 0"
  by (simp add: js_Date_def parse_iso_date_def digit_val_def days_from_civil_def Let_def)

lemma js_Date_leap_day:
  "js_Date ''2024-03-01'' = Some (19783 * ms_per_day)"
  "js_Date ''2024-02-29'' = Some (19782 * ms_per_day)"
  by (simp_all add: js_Date_def parse_iso_date_def digit_val_def days_from_civil_def Let_def)

subsection \<open>Range of the time values\<close>

lemma digit_val_lt: "digit_val ch = Some d \<Longrightarrow> d < 10"
  by (auto simp: digit_val_def Let_def split: if_splits)

lemma digits_val_bound: "digits_val acc cs = Some n \<Longrightarrow> n < (acc + 1) * 10 ^ length cs"
proof (induction cs arbitrary: acc)
  case Nil
  then show ?case by simp
next
  case (Cons ch cs)
  then obtain d where d: "digit_val ch = Some d" and n: "digits_val (10 * acc + d) cs = Some n"
    by (auto split: option.splits)
  have "n < (10 * acc + d + 1) * 10 ^ length cs" using Cons.IH [OF n] .
  also have "\<dots> \<le> (10 * acc + 10) * 10 ^ length cs"
    using digit_val_lt [OF d] by (intro mult_right_mono) simp_all
  finally show ?case by (simp add: algebra_simps)
qed

lemma parse_iso_date_year:
  assumes "parse_iso_date s = Some (y, m, d)"
  shows "0 \<le> y \<and> y < 10000"
proof -
  from assms obtain n where "digits_val 0 (take 4 s) = Some n" "y = int n" "length s = 10"
    by (auto simp: parse_iso_date_def split: if_splits option.splits)
  then show ?thesis using digits_val_bound [of 0 "take 4 s" n] by simp
qed

lemma days_from_civil_bounds:
  assumes "0 \<le> y" "y < 10000" "1 \<le> m" "m \<le> 12" "1 \<le> d" "d \<le> 31"
  shows "- 1000000 \<le> days_from_civil y m d \<and> days_from_civil y m d \<le> 3000000"
proof -
  define y' where "y' = (if m \<le> 2 then y - 1 else y)"
  define era where "era = y' div 400"
  define yoe where "yoe = y' - era * 400"
  define mp where "mp = (m + 9) mod 12"
  define doy where "doy = (153 * mp + 2) div 5 + d - 1"
  have y': "-1 \<le> y'" "y' \<le> 9999" using assms by (auto simp: y'_def)
  have yoe: "yoe = y' mod 400" unfolding yoe_def era_def by (fact minus_div_mult_eq_mod)
  have yoe_b: "0 \<le> yoe" "yoe < 400" unfolding yoe by simp_all
  have era_b: "-1 \<le> era" "era \<le> 24" unfolding era_def using y' by linarith+
  have mp_b: "0 \<le> mp" "mp < 12" unfolding mp_def by simp_all
  have doy_b: "0 \<le> doy" "doy \<le> 400" unfolding doy_def using mp_b assms by linarith+
  have "0 \<le> yoe div 4" "yoe div 4 \<le> 100" "0 \<le> yoe div 100" "yoe div 100 \<le> 4"
    using yoe_b by linarith+
  moreover have "days_from_civil y m d = era * 146097 + (yoe * 365 + yoe div 4 - yoe div 100 + doy) - 719468"
    unfolding days_from_civil_def y'_def era_def yoe_def mp_def doy_def Let_def by (rule refl)
  ultimately show ?thesis using era_b yoe_b doy_b by linarith
qed

lemma js_Date_bounds:
  assumes "js_Date s = Some a" and "js_Date t = Some b"
  shows "\<bar>a\<bar> \<le> 8640000000000000 \<and> \<bar>a - b\<bar> < 2 ^ 53"
proof -
  have bnd: "\<bar>v\<bar> \<le> 3000000 * ms_per_day" if "js_Date r = Some v" for r v
  proof -
    from that obtain y m d where p: "parse_iso_date r = Some (y, m, d)"
      and m: "1 \<le> m" "m \<le> 12" and d: "1 \<le> d" "d \<le> 31"
      and v: "v = days_from_civil y m d * ms_per_day"
      by (auto simp: js_Date_def split: option.splits if_splits)
    from parse_iso_date_year [OF p] have "0 \<le> y" "y < 10000" by simp_all
    from days_from_civil_bounds [OF this m d]
    have "\<bar>days_from_civil y m d\<bar> \<le> 3000000" by (simp add: abs_le_iff)
    then show ?thesis unfolding v abs_mult by (simp add: ms_per_day_def)
  qed
  from bnd [OF assms(1)] bnd [OF assms(2)] show ?thesis by (simp add: ms_per_day_def)
qed

end
