(* ===== verification/Projector.thy ===== *)
theory Projector
  imports Todo JsSort JsDate
begin

text \<open>
  The View Projector: \<^verbatim>\<open>src/src/components/TodoList.js\<close>. Its state is the two
  selections \<open>filter\<close> and \<open>sortBy\<close> (strings, set from the option values of two
  \<^verbatim>\<open><select>\<close> elements); \<open>getFilteredTodos\<close> filters the tasks and
  \<open>sortTodos\<close> sorts a copy with one of three comparators.
\<close>

subsection \<open>The comparators\<close>

text \<open>\<open>priorityOrder[p] || 0\<close>: the rank of a priority, \<open>0\<close> for a missing or unknown one.\<close>

definition priorityOrder :: "string \<Rightarrow> int option" where
  "priorityOrder p =
     (if p = ''high'' then Some 3 else if p = ''medium'' then Some 2
      else if p = ''low'' then Some 1 else None)"

definition priority_value :: "todo \<Rightarrow> int" where
  "priority_value t =
     (case priority t of None \<Rightarrow> 0
      | Some p \<Rightarrow> (case priorityOrder p of None \<Rightarrow> 0 | Some r \<Rightarrow> r))"

definition cmp_priority :: "todo js_cmp" where
  "cmp_priority a b = Some (priority_value b - priority_value a)"

text \<open>\<open>new Date(t.dueDate)\<close>, for a task whose due date is truthy.\<close>

definition due_ms :: "todo \<Rightarrow> int option" where
  "due_ms t = (case dueDate t of Some s \<Rightarrow> js_Date s | None \<Rightarrow> None)"

definition cmp_dueDate :: "todo js_cmp" where
  "cmp_dueDate a b =
     (if \<not> js_truthy_str (dueDate a) then Some 1
      else if \<not> js_truthy_str (dueDate b) then Some (-1)
      else js_sub (due_ms a) (due_ms b))"

definition cmp_created :: "todo js_cmp" where
  "cmp_created a b = js_sub (createdAt b) (createdAt a)"

definition sortTodos :: "todo list \<Rightarrow> string \<Rightarrow> todo list" where
  "sortTodos todosToSort sortBy =
     (if sortBy = ''priority'' then js_sort cmp_priority todosToSort
      else if sortBy = ''dueDate'' then js_sort cmp_dueDate todosToSort
      else js_sort cmp_created todosToSort)"

definition getFilteredTodos :: "todo list \<Rightarrow> string \<Rightarrow> string \<Rightarrow> todo list" where
  "getFilteredTodos todos filt sortBy =
     sortTodos
       (if filt = ''completed'' then filter (\<lambda>t. completed t = True) todos
        else if filt = ''false'' then filter (\<lambda>t. completed t = False) todos
        else todos)
       sortBy"

subsection \<open>The selections\<close>

record list_ui =
  ui_filter :: string
  ui_sortBy :: string

definition init_list_ui :: list_ui where
  "init_list_ui = \<lparr>ui_filter = ''all'', ui_sortBy = ''created''\<rparr>"

definition filter_options :: "string list" where
  "filter_options = [''all'', ''pending'', ''completed'']"

definition sort_options :: "string list" where
  "sort_options = [''created'', ''priority'', ''dueDate'']"

text \<open>The selections a user can reach: the initial ones and any option picked since.\<close>

inductive ui_reachable :: "list_ui \<Rightarrow> bool" where
  init: "ui_reachable init_list_ui"
| set_filter: "ui_reachable u \<Longrightarrow> v \<in> set filter_options \<Longrightarrow> ui_reachable (u\<lparr>ui_filter := v\<rparr>)"
| set_sortBy: "ui_reachable u \<Longrightarrow> v \<in> set sort_options \<Longrightarrow> ui_reachable (u\<lparr>ui_sortBy := v\<rparr>)"

subsection \<open>Shared facts\<close>

abbreviation dated :: "todo \<Rightarrow> bool" where
  "dated t \<equiv> js_truthy_str (dueDate t)"

definition due_key :: "todo \<Rightarrow> int" where
  "due_key t = (case due_ms t of Some v \<Rightarrow> v | None \<Rightarrow> 0)"

definition created_key :: "todo \<Rightarrow> int" where
  "created_key t = (case createdAt t of Some v \<Rightarrow> v | None \<Rightarrow> 0)"

lemma ui_reachable_options:
  "ui_reachable u \<Longrightarrow> ui_filter u \<in> set filter_options \<and> ui_sortBy u \<in> set sort_options"
  by (induction rule: ui_reachable.induct) (simp_all add: init_list_ui_def filter_options_def sort_options_def)

lemma sign_agrees_priority: "sign_agrees cmp_priority (\<lambda>t. - priority_value t) S"
  by (simp add: sign_agrees_def sort_compare_def cmp_priority_def)

text \<open>How the due-date comparator inserts: an undated task goes to the end, a dated one into the dated prefix.\<close>

lemma js_insert_undated: "\<not> dated x \<Longrightarrow> js_insert cmp_dueDate x ys = ys @ [x]"
  by (induction ys) (simp_all add: sort_compare_def cmp_dueDate_def)

lemma js_insert_dated:
  assumes "dated x" and "\<forall>y\<in>set ds. dated y" and "\<forall>u\<in>set us. \<not> dated u"
  shows "js_insert cmp_dueDate x (ds @ us) = js_insert cmp_dueDate x ds @ us"
  using assms
proof (induction ds)
  case Nil
  then show ?case
    by (cases us) (simp_all add: sort_compare_def cmp_dueDate_def)
next
  case (Cons d ds)
  then show ?case by simp
qed

text \<open>Sorting by due date puts the dated tasks, sorted among themselves, before the rest.\<close>

lemma js_sort_dueDate_split:
  "js_sort cmp_dueDate xs = js_sort cmp_dueDate (filter dated xs) @ filter (\<lambda>t. \<not> dated t) xs"
proof (induction xs rule: rev_induct)
  case Nil
  then show ?case by simp
next
  case (snoc x xs)
  let ?D = "js_sort cmp_dueDate (filter dated xs)" and ?U = "filter (\<lambda>t. \<not> dated t) xs"
  have D: "\<forall>y\<in>set ?D. dated y" and U: "\<forall>u\<in>set ?U. \<not> dated u" by simp_all
  have "js_sort cmp_dueDate (xs @ [x]) = js_insert cmp_dueDate x (?D @ ?U)"
    by (simp only: js_sort_snoc snoc.IH)
  also have "\<dots> = js_sort cmp_dueDate (filter dated (xs @ [x])) @ filter (\<lambda>t. \<not> dated t) (xs @ [x])"
  proof (cases "dated x")
    case True
    then show ?thesis using js_insert_dated [OF True D U] by simp
  next
    case False
    then show ?thesis using js_insert_undated [OF False, of "?D @ ?U"] by simp
  qed
  finally show ?case .
qed

lemma sign_agrees_created:
  assumes "\<forall>t\<in>S. createdAt t \<noteq> None"
  shows "sign_agrees cmp_created (\<lambda>t. - created_key t) S"
  unfolding sign_agrees_def
proof (intro ballI)
  fix x y assume "x \<in> S" "y \<in> S"
  with assms obtain a b where "createdAt x = Some a" "createdAt y = Some b" by blast
  then show "(sort_compare cmp_created x y < 0) = (- created_key x < - created_key y)"
    by (simp add: sort_compare_def cmp_created_def created_key_def)
qed

lemma sign_agrees_dueDate:
  assumes "\<forall>t\<in>S. dated t \<and> due_ms t \<noteq> None"
  shows "sign_agrees cmp_dueDate due_key S"
  unfolding sign_agrees_def
proof (intro ballI)
  fix x y assume "x \<in> S" "y \<in> S"
  with assms obtain a b where "due_ms x = Some a" "due_ms y = Some b" "dated x" "dated y" by blast
  then show "(sort_compare cmp_dueDate x y < 0) = (due_key x < due_key y)"
    by (simp add: sort_compare_def cmp_dueDate_def due_key_def)
qed

subsection \<open>Properties of the projection\<close>

text \<open>
  C1: the \<open>completed\<close> selection shows exactly the completed tasks: the view is a
  permutation of the completed tasks, whatever the sort order.
\<close>

theorem completed_filter_exact:
  "mset (getFilteredTodos todos ''completed'' sortBy) = mset (filter completed todos)"
  by (simp add: getFilteredTodos_def sortTodos_def)

text \<open>
  C2: the \<open>false\<close> branch of the filter is dead code. No selection the user can
  reach holds \<open>''false''\<close>; the ``En cours'' (pending) option sets \<open>''pending''\<close>,
  which falls through to the unfiltered list, so the pending view also shows the
  completed tasks.
\<close>

theorem ui_filter_never_pending:
  assumes "ui_reachable u"
  shows "getFilteredTodos todos (ui_filter u) (ui_sortBy u) =
           sortTodos (if ui_filter u = ''completed'' then filter completed todos else todos) (ui_sortBy u)"
proof -
  from ui_reachable_options [OF assms] have "ui_filter u \<noteq> ''false''"
    by (auto simp: filter_options_def)
  then show ?thesis by (simp add: getFilteredTodos_def)
qed

theorem ui_filter_never_pending_witness:
  "getFilteredTodos [remote_todo 1 1 ''a'' True] ''pending'' ''created'' = [remote_todo 1 1 ''a'' True]"
proof -
  have r: "ui_reachable (init_list_ui\<lparr>ui_filter := ''pending''\<rparr>)"
    by (rule ui_reachable.set_filter [OF ui_reachable.init]) (simp add: filter_options_def)
  show ?thesis
    using ui_filter_never_pending [OF r, of "[remote_todo 1 1 ''a'' True]"]
    by (simp add: init_list_ui_def sortTodos_def js_sort_def)
qed

text \<open>
  C3: sorting by priority is the stable sort by descending rank
  (\<open>high\<close> 3, \<open>medium\<close> 2, \<open>low\<close> 1, anything else 0): equal ranks keep their order.
\<close>

theorem priority_sort_is_stable_sort:
  "sortTodos todos ''priority'' = sort_key (\<lambda>t. - priority_value t) todos"
  by (simp add: sortTodos_def js_sort_sort_key sign_agrees_priority)

text \<open>C4: the priority view, of any selection, is non-increasing in rank.\<close>

theorem priority_view_nonincreasing:
  "sorted_wrt (\<ge>) (map priority_value (getFilteredTodos todos filt ''priority''))"
proof -
  let ?xs = "if filt = ''completed'' then filter (\<lambda>t. completed t = True) todos
             else if filt = ''false'' then filter (\<lambda>t. completed t = False) todos else todos"
  have "sorted (map (\<lambda>t. - priority_value t) (js_sort cmp_priority ?xs))"
    by (rule sorted_js_sort) (rule sign_agrees_priority)
  then show ?thesis
    by (simp add: getFilteredTodos_def sortTodos_def sorted_wrt_map)
qed

text \<open>
  C5: sorting by due date puts every task with a due date before every task without
  one; the dated tasks are in ascending order of date, ties in their original order,
  and the undated ones keep their original order. This holds when each due date
  that is set parses as a date.
\<close>

theorem dueDate_view_order:
  assumes "\<forall>t\<in>set todos. dated t \<longrightarrow> due_ms t \<noteq> None"
  shows "getFilteredTodos todos ''all'' ''dueDate'' =
           sort_key due_key (filter dated todos) @ filter (\<lambda>t. \<not> dated t) todos"
proof -
  have "sign_agrees cmp_dueDate due_key (set (filter dated todos))"
    using assms by (intro sign_agrees_dueDate) auto
  then have "js_sort cmp_dueDate (filter dated todos) = sort_key due_key (filter dated todos)"
    by (rule js_sort_sort_key)
  then show ?thesis
    by (simp add: getFilteredTodos_def sortTodos_def js_sort_dueDate_split [of todos])
qed

theorem dueDate_view_order_witness:
  "getFilteredTodos
     [remote_todo 1 1 ''a'' False, (remote_todo 1 2 ''b'' False)\<lparr>dueDate := Some ''2024-05-02''\<rparr>,
      (remote_todo 1 3 ''c'' False)\<lparr>dueDate := Some ''2024-05-01''\<rparr>] ''all'' ''dueDate'' =
   [(remote_todo 1 3 ''c'' False)\<lparr>dueDate := Some ''2024-05-01''\<rparr>,
    (remote_todo 1 2 ''b'' False)\<lparr>dueDate := Some ''2024-05-02''\<rparr>, remote_todo 1 1 ''a'' False]"
proof -
  have v1: "js_Date ''2024-05-01'' = Some (19844 * ms_per_day)"
    and v2: "js_Date ''2024-05-02'' = Some (19845 * ms_per_day)"
    by (simp_all add: js_Date_def parse_iso_date_def digit_val_def days_from_civil_def Let_def)
  show ?thesis
    using dueDate_view_order [of "[remote_todo 1 1 ''a'' False,
        (remote_todo 1 2 ''b'' False)\<lparr>dueDate := Some ''2024-05-02''\<rparr>,
        (remote_todo 1 3 ''c'' False)\<lparr>dueDate := Some ''2024-05-01''\<rparr>]"]
    by (simp add: due_ms_def due_key_def v1 v2 ms_per_day_def)
qed

text \<open>
  C6: the default sort (\<open>''created''\<close>, and any value that is neither
  \<open>''priority''\<close> nor \<open>''dueDate''\<close>) is the stable sort by descending creation
  time, provided every task has a \<open>createdAt\<close>.
\<close>

theorem created_sort_is_stable_sort:
  assumes "sortBy \<noteq> ''priority''" and "sortBy \<noteq> ''dueDate''"
    and "\<forall>t\<in>set todos. createdAt t \<noteq> None"
  shows "sortTodos todos sortBy = sort_key (\<lambda>t. - created_key t) todos"
  using assms by (simp add: sortTodos_def js_sort_sort_key sign_agrees_created)

theorem created_sort_is_stable_sort_witness:
  "sortTodos [newTodo 1 1 \<lparr>in_title = ''a'', in_description = None, in_priority = None, in_dueDate = None\<rparr>,
              newTodo 2 2 \<lparr>in_title = ''b'', in_description = None, in_priority = None, in_dueDate = None\<rparr>]
     ''created'' =
   [newTodo 2 2 \<lparr>in_title = ''b'', in_description = None, in_priority = None, in_dueDate = None\<rparr>,
    newTodo 1 1 \<lparr>in_title = ''a'', in_description = None, in_priority = None, in_dueDate = None\<rparr>]"
  using created_sort_is_stable_sort [of "''created''"
      "[newTodo 1 1 \<lparr>in_title = ''a'', in_description = None, in_priority = None, in_dueDate = None\<rparr>,
        newTodo 2 2 \<lparr>in_title = ''b'', in_description = None, in_priority = None, in_dueDate = None\<rparr>]"]
  by (simp add: created_key_def)

text \<open>
  C7: the due-date comparator is not consistent: for two tasks without a due date it
  answers ``greater'' both ways round, so ECMAScript leaves their order to the engine.
\<close>

theorem dueDate_cmp_inconsistent:
  assumes "\<not> dated a" and "\<not> dated b"
  shows "sort_compare cmp_dueDate a b > 0 \<and> sort_compare cmp_dueDate b a > 0"
  using assms by (simp add: sort_compare_def cmp_dueDate_def)

theorem dueDate_cmp_inconsistent_witness:
  "sort_compare cmp_dueDate (remote_todo 1 1 ''a'' False) (remote_todo 1 2 ''b'' False) > 0 \<and>
   sort_compare cmp_dueDate (remote_todo 1 2 ''b'' False) (remote_todo 1 1 ''a'' False) > 0"
  by (rule dueDate_cmp_inconsistent) simp_all

text \<open>
  C8: the creation-time comparator is not consistent once a seeded task (no
  \<open>createdAt\<close>, so \<open>NaN\<close>, read as 0) is in the list: it is ``equal'' to every
  task, while two added tasks of different times are not equal to each other.
\<close>

theorem created_cmp_not_transitive:
  assumes "createdAt s = None" and "createdAt a = Some x" and "createdAt b = Some y" and "x \<noteq> y"
  shows "sort_compare cmp_created a s = 0 \<and> sort_compare cmp_created s b = 0 \<and>
         sort_compare cmp_created a b \<noteq> 0"
  using assms by (simp add: sort_compare_def cmp_created_def)

theorem created_cmp_not_transitive_witness:
  "sort_compare cmp_created (newTodo 5 5 \<lparr>in_title = ''a'', in_description = None, in_priority = None, in_dueDate = None\<rparr>)
      (remote_todo 1 1 ''s'' False) = 0 \<and>
   sort_compare cmp_created (remote_todo 1 1 ''s'' False)
      (newTodo 6 6 \<lparr>in_title = ''b'', in_description = None, in_priority = None, in_dueDate = None\<rparr>) = 0 \<and>
   sort_compare cmp_created (newTodo 5 5 \<lparr>in_title = ''a'', in_description = None, in_priority = None, in_dueDate = None\<rparr>)
      (newTodo 6 6 \<lparr>in_title = ''b'', in_description = None, in_priority = None, in_dueDate = None\<rparr>) \<noteq> 0"
  by (rule created_cmp_not_transitive [of _ _ 5 _ 6]) simp_all

text \<open>
  C29: when no task has a \<open>createdAt\<close> (a freshly seeded list), every comparison of
  the default sort is \<open>NaN\<close>, read as equal, so the default view is the list in its
  stored order.
\<close>

theorem default_sort_keeps_seeded_order:
  assumes "\<forall>t\<in>set todos. createdAt t = None"
  shows "sortTodos todos ''created'' = todos"
proof -
  have "sign_agrees cmp_created (\<lambda>t. 0) (set todos)"
    using assms by (simp add: sign_agrees_def sort_compare_def cmp_created_def)
  then have "js_sort cmp_created todos = sort_key (\<lambda>t. 0::int) todos"
    by (rule js_sort_sort_key)
  then show ?thesis by (simp add: sortTodos_def sort_key_const)
qed

theorem default_sort_keeps_seeded_order_witness:
  "sortTodos [remote_todo 1 2 ''b'' False, remote_todo 1 1 ''a'' True] ''created'' =
   [remote_todo 1 2 ''b'' False, remote_todo 1 1 ''a'' True]"
  by (rule default_sort_keeps_seeded_order) simp

end
