(* ===== verification/DateOrder.thy ===== *)
theory DateOrder
  imports JsDate "HOL-Library.Product_Lexorder"
begin

text \<open>
  The order of the time values \<open>new Date(s)\<close> gives the date strings a date input
  yields. The calendar here is the proleptic Gregorian one that ECMAScript uses:
  \<open>is_leap\<close>, the month lengths \<open>days_in_month\<close> and the valid dates
  \<open>valid_date\<close> (a day that exists in its month). The proof splits the day number
  of \<open>days_from_civil\<close> into the day number of the 1st of March of a year
  (\<open>year_start\<close>), which grows by the length of the following year, and the offset
  of a month in the year starting in March (\<open>month_offset\<close>, \<open>cum_days\<close>). Triples
  \<open>(year, month, day)\<close> are ordered lexicographically (\<open>Product_Lexorder\<close>).
\<close>

definition is_leap :: "int \<Rightarrow> bool" where
  "is_leap y \<longleftrightarrow> (4 dvd y \<and> \<not> 100 dvd y) \<or> 400 dvd y"

definition days_in_month :: "int \<Rightarrow> int \<Rightarrow> int" where
  "days_in_month y m =
     (if m = 2 then (if is_leap y then 29 else 28)
      else if m = 4 \<or> m = 6 \<or> m = 9 \<or> m = 11 then 30 else 31)"

definition valid_date :: "int \<times> int \<times> int \<Rightarrow> bool" where
  "valid_date p = (case p of (y, m, d) \<Rightarrow> 1 \<le> m \<and> m \<le> 12 \<and> 1 \<le> d \<and> d \<le> days_in_month y m)"

text \<open>Pieces of \<open>days_from_civil\<close>: the 1st of March of a year, and a month's offset from it.\<close>

definition year_start :: "int \<Rightarrow> int" where
  "year_start Y = (let era = Y div 400; yoe = Y - era * 400 in
     era * 146097 + yoe * 365 + yoe div 4 - yoe div 100 - 719468)"

definition month_offset :: "int \<Rightarrow> int" where
  "month_offset m = (153 * ((m + 9) mod 12) + 2) div 5"

definition cum_days :: "int \<Rightarrow> int \<Rightarrow> int" where
  "cum_days y m = (if m \<le> 2 then month_offset m else 365 + (if is_leap y then 1 else 0) + month_offset m)"

subsection \<open>Day numbers in calendar order\<close>

lemma days_from_civil_split:
  "days_from_civil y m d = year_start (if m \<le> 2 then y - 1 else y) + month_offset m + d - 1"
  unfolding days_from_civil_def year_start_def month_offset_def Let_def by linarith

lemma year_start_mod:
  "year_start Y = Y div 400 * 146097 + Y mod 400 * 365 + Y mod 400 div 4 - Y mod 400 div 100 - 719468"
proof -
  have "Y - Y div 400 * 400 = Y mod 400" by (fact minus_div_mult_eq_mod)
  then show ?thesis unfolding year_start_def Let_def by (rule arg_cong [where f = "\<lambda>r. Y div 400 * 146097 + r * 365 + r div 4 - r div 100 - 719468"])
qed

lemma succ_div_mod:
  fixes n k :: int
  assumes "0 < k"
  shows "(n + 1) div k = n div k + (if n mod k = k - 1 then 1 else 0) \<and>
         (n + 1) mod k = (if n mod k = k - 1 then 0 else n mod k + 1)"
proof -
  have e: "n + 1 = (n mod k + 1) + n div k * k" using div_mult_mod_eq [of n k] by linarith
  have b: "0 \<le> n mod k" "n mod k < k" using assms by simp_all
  have "(n + 1) div k = (n mod k + 1 + n div k * k) div k" using e by (rule arg_cong)
  also have "\<dots> = n div k + (n mod k + 1) div k" using assms by (intro div_mult_self1) simp
  finally have d: "(n + 1) div k = n div k + (n mod k + 1) div k" .
  have "(n + 1) mod k = (n mod k + 1 + n div k * k) mod k" using e by (rule arg_cong)
  also have "\<dots> = (n mod k + 1) mod k" by (rule mod_mult_self1)
  finally have m: "(n + 1) mod k = (n mod k + 1) mod k" .
  show ?thesis
  proof (cases "n mod k = k - 1")
    case True
    then show ?thesis using d m assms by simp
  next
    case False
    with b have lt: "0 \<le> n mod k + 1" "n mod k + 1 < k" by linarith+
    then have "(n mod k + 1) div k = 0" "(n mod k + 1) mod k = n mod k + 1"
      by (simp_all add: div_pos_pos_trivial mod_pos_pos_trivial)
    with d m False show ?thesis by simp
  qed
qed

lemma dvd_succ_iff:
  fixes n k :: int
  assumes "0 < k"
  shows "k dvd (n + 1) \<longleftrightarrow> n mod k = k - 1"
proof -
  have "0 \<le> n mod k" using assms by simp
  then show ?thesis using succ_div_mod [OF assms, of n] by (simp add: dvd_eq_mod_eq_0)
qed

lemma div4_succ: "(n + 1) div 4 = n div (4::int) + (if 4 dvd (n + 1) then 1 else 0)"
  using succ_div_mod [of 4 n] dvd_succ_iff [of 4 n] by simp

lemma div100_succ: "(n + 1) div 100 = n div (100::int) + (if 100 dvd (n + 1) then 1 else 0)"
  using succ_div_mod [of 100 n] dvd_succ_iff [of 100 n] by simp
lemma dvd_succ_mod_400:
  fixes Y :: int
  assumes "k dvd 400"
  shows "k dvd (Y + 1) \<longleftrightarrow> k dvd (Y mod 400 + 1)"
proof -
  have e: "Y + 1 = (Y mod 400 + 1) + Y div 400 * 400" using div_mult_mod_eq [of Y 400] by linarith
  have "k dvd Y div 400 * 400" using assms by simp
  then show ?thesis by (subst e) (rule dvd_add_left_iff)
qed


lemma year_start_step:
  "year_start (Y + 1) = year_start Y + 365 + (if is_leap (Y + 1) then 1 else 0)"
proof (cases "Y mod 400 = 399")
  case True
  then have "(Y + 1) div 400 = Y div 400 + 1" "(Y + 1) mod 400 = 0" "400 dvd (Y + 1)"
    using succ_div_mod [of 400 Y] dvd_succ_mod_400 [of 400 Y] by simp_all
  with True show ?thesis by (simp add: year_start_mod is_leap_def)
next
  case False
  define r where "r = Y mod 400"
  have r: "0 \<le> r" "r < 399" using False unfolding r_def by arith+
  have q: "(Y + 1) div 400 = Y div 400" "(Y + 1) mod 400 = r + 1"
    using False succ_div_mod [of 400 Y] unfolding r_def by simp_all
  have n400: "\<not> 400 dvd (r + 1)"
  proof
    assume "400 dvd (r + 1)"
    then have "400 \<le> r + 1" using r by (intro zdvd_imp_le) simp_all
    with r show False by simp
  qed
  have h: "100 dvd (r + 1) \<Longrightarrow> 4 dvd (r + 1)" by (rule dvd_trans [of 4 100]) simp_all
  have l: "is_leap (Y + 1) \<longleftrightarrow> 4 dvd (r + 1) \<and> \<not> 100 dvd (r + 1)"
    unfolding is_leap_def r_def using dvd_succ_mod_400 [of 4 Y] dvd_succ_mod_400 [of 100 Y]
      dvd_succ_mod_400 [of 400 Y] n400 unfolding r_def by simp
  show ?thesis unfolding year_start_mod q r_def [symmetric] l
    using h by (simp add: div4_succ div100_succ)
qed

lemma days_from_civil_year:
  "days_from_civil y m d = year_start (y - 1) + cum_days y m + d - 1"
proof -
  have "year_start y = year_start (y - 1) + 365 + (if is_leap y then 1 else 0)"
    using year_start_step [of "y - 1"] by simp
  then show ?thesis by (simp add: days_from_civil_split cum_days_def)
qed

lemma month_cases:
  assumes "1 \<le> m" "m < (12::int)"
  shows "m = 1 \<or> m = 2 \<or> m = 3 \<or> m = 4 \<or> m = 5 \<or> m = 6 \<or> m = 7 \<or> m = 8 \<or> m = 9 \<or> m = 10 \<or> m = 11"
  using assms by arith

lemma cum_days_next:
  assumes "1 \<le> m" "m < 12"
  shows "cum_days y (m + 1) = cum_days y m + days_in_month y m"
  using month_cases [OF assms]
  by (elim disjE) (simp_all add: cum_days_def month_offset_def days_in_month_def)

lemma days_in_month_pos: "0 < days_in_month y m"
  by (simp add: days_in_month_def)

lemma cum_days_mono:
  assumes "1 \<le> m" "m \<le> m2" "m2 \<le> 12"
  shows "cum_days y m \<le> cum_days y m2"
  using assms(2,3)
proof (induction m2 rule: int_ge_induct)
  case base
  then show ?case by simp
next
  case (step i)
  then have "cum_days y m \<le> cum_days y i" by simp
  also have "\<dots> \<le> cum_days y (i + 1)"
    using cum_days_next [of i y] days_in_month_pos [of y i] step.hyps assms(1) step.prems by simp
  finally show ?case .
qed

lemma year_start_mono:
  assumes "Y \<le> Y2"
  shows "year_start Y \<le> year_start Y2"
  using assms
proof (induction Y2 rule: int_ge_induct)
  case base
  then show ?case by simp
next
  case (step i)
  then show ?case using year_start_step [of i] by simp
qed

lemma valid_date_month_end:
  assumes "1 \<le> m" "m \<le> 12"
  shows "cum_days y m + days_in_month y m \<le> 671 + (if is_leap y then 1 else 0)"
proof (cases "m = 12")
  case True
  then show ?thesis by (simp add: cum_days_def month_offset_def days_in_month_def)
next
  case False
  with assms have "m < 12" by simp
  with assms have "cum_days y m + days_in_month y m = cum_days y (m + 1)" by (simp add: cum_days_next)
  also have "\<dots> \<le> cum_days y 12" using assms \<open>m < 12\<close> by (intro cum_days_mono) simp_all
  also have "\<dots> \<le> 671 + (if is_leap y then 1 else 0) - 31" by (simp add: cum_days_def month_offset_def)
  finally show ?thesis by simp
qed

lemma days_from_civil_year_bounds:
  assumes "valid_date (y, m, d)"
  shows "year_start (y - 1) + 306 \<le> days_from_civil y m d \<and> days_from_civil y m d < year_start y + 306"
proof -
  from assms have m: "1 \<le> m" "m \<le> 12" and d: "1 \<le> d" "d \<le> days_in_month y m"
    by (simp_all add: valid_date_def)
  have "cum_days y 1 \<le> cum_days y m" using m by (intro cum_days_mono) simp_all
  moreover have "cum_days y 1 = 306" by (simp add: cum_days_def month_offset_def)
  moreover have "year_start y = year_start (y - 1) + 365 + (if is_leap y then 1 else 0)"
    using year_start_step [of "y - 1"] by simp
  ultimately show ?thesis
    using valid_date_month_end [OF m, of y] d by (simp add: days_from_civil_year)
qed

lemma days_from_civil_strict_mono:
  assumes "valid_date (y, m, d)" "valid_date (y2, m2, d2)" "(y, m, d) < (y2, m2, d2)"
  shows "days_from_civil y m d < days_from_civil y2 m2 d2"
proof (cases "y < y2")
  case True
  then have "year_start y \<le> year_start (y2 - 1)" by (intro year_start_mono) simp
  with days_from_civil_year_bounds [OF assms(1)] days_from_civil_year_bounds [OF assms(2)]
  show ?thesis by linarith
next
  case False
  with assms(3) have y: "y2 = y" and md: "m < m2 \<or> m = m2 \<and> d < d2"
    by (auto simp: less_prod_def)
  from assms(1,2) have m: "1 \<le> m" "m \<le> 12" "m2 \<le> 12" and d: "d \<le> days_in_month y m" "1 \<le> d2"
    by (simp_all add: valid_date_def y)
  from md show ?thesis
  proof
    assume "m < m2"
    then have "cum_days y m + days_in_month y m \<le> cum_days y m2"
      using m cum_days_next [of m y] cum_days_mono [of "m + 1" m2 y] by simp
    with d show ?thesis by (simp add: days_from_civil_year y)
  next
    assume "m = m2 \<and> d < d2"
    then show ?thesis by (simp add: days_from_civil_year y)
  qed
qed

lemma valid_date_js_Date:
  assumes "parse_iso_date s = Some (y, m, d)" "valid_date (y, m, d)"
  shows "js_Date s = Some (days_from_civil y m d * ms_per_day)"
proof -
  have "days_in_month y m \<le> 31" by (simp add: days_in_month_def)
  with assms show ?thesis by (simp add: js_Date_def valid_date_def)
qed

lemma js_Date_calendar_order:
  assumes "parse_iso_date s = Some p" "parse_iso_date t = Some q"
    and "valid_date p" "valid_date q"
  shows "\<exists>a b. js_Date s = Some a \<and> js_Date t = Some b \<and> (a < b \<longleftrightarrow> p < q) \<and> (a = b \<longleftrightarrow> p = q)"
proof -
  obtain y m d y2 m2 d2 where p: "p = (y, m, d)" and q: "q = (y2, m2, d2)" by (cases p, cases q) auto
  let ?a = "days_from_civil y m d" and ?b = "days_from_civil y2 m2 d2"
  have vp: "valid_date (y, m, d)" and vq: "valid_date (y2, m2, d2)" using assms(3,4) p q by simp_all
  note m1 = days_from_civil_strict_mono [OF vp vq] and m2 = days_from_civil_strict_mono [OF vq vp]
  have lt: "?a < ?b \<longleftrightarrow> p < q" and eq: "?a = ?b \<longleftrightarrow> p = q"
    unfolding p q
    by (cases rule: linorder_cases [of "(y, m, d)" "(y2, m2, d2)"]; use m1 m2 in force)+
  have ms: "0 < ms_per_day" by (simp add: ms_per_day_def)
  show ?thesis
    using valid_date_js_Date [OF assms(1) [unfolded p] vp] valid_date_js_Date [OF assms(2) [unfolded q] vq]
      lt eq ms by simp
qed

end
