(* ===== verification/JsonText.thy ===== *)
theory JsonText
  imports JsDate
begin

text \<open>
  The text format of the storage slot. App.js writes the list with
  \<open>JSON.stringify(todos)\<close> (lines 31 and 43) and reads it back with
  \<open>JSON.parse(savedTodos)\<close> (line 18). This theory holds JSON values (\<open>json\<close>), the
  printer \<open>json_print\<close> as \<open>JSON.stringify\<close> (\<open>SerializeJSONProperty\<close>,
  \<open>QuoteJSONString\<close>: the short escapes, \<^verbatim>\<open>\u00XX\<close> with lower-case hex digits
  for the other control characters, integers in decimal), and the tokens and
  scanners of the parser (\<open>lex_token\<close>): strings with every escape, integers with
  JSON's rule against leading zeros, the literals. Characters are the 8-bit
  \<open>char\<close> of HOL, so a \<^verbatim>\<open>\uXXXX\<close> escape above \<open>0xFF\<close> and a number with a
  fraction or an exponent (which no stored list contains) are outside the model and
  are rejected.
\<close>

datatype json = JNull | JBool bool | JNum int | JStr string | JArr "json list"
  | JObj "(string \<times> json) list"

definition hex_char :: "nat \<Rightarrow> char" where
  "hex_char n = (if n < 10 then char_of (48 + n) else char_of (87 + n))"

definition escape_char :: "char \<Rightarrow> string" where
  "escape_char c =
     (if c = CHR 0x22 then [CHR 0x5C, CHR 0x22]
      else if c = CHR 0x5C then [CHR 0x5C, CHR 0x5C]
      else if c = CHR 0x08 then [CHR 0x5C, CHR ''b'']
      else if c = CHR 0x0C then [CHR 0x5C, CHR ''f'']
      else if c = CHR 0x0A then [CHR 0x5C, CHR ''n'']
      else if c = CHR 0x0D then [CHR 0x5C, CHR ''r'']
      else if c = CHR 0x09 then [CHR 0x5C, CHR ''t'']
      else if of_char c < (32::nat)
      then [CHR 0x5C, CHR ''u'', CHR ''0'', CHR ''0'', hex_char (of_char c div 16), hex_char (of_char c mod 16)]
      else [c])"

definition quote_json :: "string \<Rightarrow> string" where
  "quote_json s = CHR 0x22 # concat (map escape_char s) @ [CHR 0x22]"

fun show_nat :: "nat \<Rightarrow> string" where
  "show_nat n = (if n < 10 then [char_of (48 + n)] else show_nat (n div 10) @ [char_of (48 + n mod 10)])"

declare show_nat.simps [simp del]

definition show_int :: "int \<Rightarrow> string" where
  "show_int i = (if i < 0 then CHR ''-'' # show_nat (nat (- i)) else show_nat (nat i))"

fun join_commas :: "string list \<Rightarrow> string" where
  "join_commas [] = []"
| "join_commas [s] = s"
| "join_commas (s # ss) = s @ CHR '','' # join_commas ss"

fun json_print :: "json \<Rightarrow> string" where
  "json_print JNull = ''null''"
| "json_print (JBool b) = (if b then ''true'' else ''false'')"
| "json_print (JNum n) = show_int n"
| "json_print (JStr s) = quote_json s"
| "json_print (JArr vs) = CHR ''['' # join_commas (map json_print vs) @ [CHR '']'']"
| "json_print (JObj ms) =
     CHR ''{'' # join_commas (map (\<lambda>(k, v). quote_json k @ CHR '':'' # json_print v) ms) @ [CHR ''}'']"

datatype token = T_lbrack | T_rbrack | T_lbrace | T_rbrace | T_comma | T_colon
  | T_str string | T_num int | T_true | T_false | T_null

definition is_ws :: "char \<Rightarrow> bool" where
  "is_ws c \<longleftrightarrow> c = CHR '' '' \<or> c = CHR 0x09 \<or> c = CHR 0x0A \<or> c = CHR 0x0D"

definition short_escape :: "char \<Rightarrow> char option" where
  "short_escape e =
     (if e = CHR 0x22 \<or> e = CHR 0x5C \<or> e = CHR ''/'' then Some e
      else if e = CHR ''b'' then Some (CHR 0x08)
      else if e = CHR ''f'' then Some (CHR 0x0C)
      else if e = CHR ''n'' then Some (CHR 0x0A)
      else if e = CHR ''r'' then Some (CHR 0x0D)
      else if e = CHR ''t'' then Some (CHR 0x09)
      else None)"

definition hex_val :: "char \<Rightarrow> nat option" where
  "hex_val c = (let n = of_char c :: nat in
     if 48 \<le> n \<and> n \<le> 57 then Some (n - 48)
     else if 97 \<le> n \<and> n \<le> 102 then Some (n - 87)
     else if 65 \<le> n \<and> n \<le> 70 then Some (n - 55)
     else None)"

definition hex4 :: "char \<Rightarrow> char \<Rightarrow> char \<Rightarrow> char \<Rightarrow> nat option" where
  "hex4 a b c d = (case (hex_val a, hex_val b, hex_val c, hex_val d) of
     (Some w, Some x, Some y, Some z) \<Rightarrow> Some (((w * 16 + x) * 16 + y) * 16 + z)
   | _ \<Rightarrow> None)"

fun scan_str :: "string \<Rightarrow> string \<Rightarrow> (string \<times> string) option" where
  "scan_str acc [] = None"
| "scan_str acc (c # cs) =
     (if c = CHR 0x22 then Some (rev acc, cs)
      else if c = CHR 0x5C then
        (case cs of
           [] \<Rightarrow> None
         | e # cs' \<Rightarrow>
             (case short_escape e of
                Some u \<Rightarrow> scan_str (u # acc) cs'
              | None \<Rightarrow>
                  if e = CHR ''u'' then
                    (case cs' of
                       h1 # h2 # h3 # h4 # cs'' \<Rightarrow>
                         (case hex4 h1 h2 h3 h4 of
                            Some n \<Rightarrow> if n < 256 then scan_str (char_of n # acc) cs'' else None
                          | None \<Rightarrow> None)
                     | _ \<Rightarrow> None)
                  else None))
      else if of_char c < (32::nat) then None
      else scan_str (c # acc) cs)"

fun scan_digits :: "nat \<Rightarrow> string \<Rightarrow> nat \<times> string" where
  "scan_digits acc [] = (acc, [])"
| "scan_digits acc (c # cs) =
     (case digit_val c of Some d \<Rightarrow> scan_digits (10 * acc + d) cs | None \<Rightarrow> (acc, c # cs))"

definition scan_uint :: "string \<Rightarrow> (nat \<times> string) option" where
  "scan_uint s =
     (case s of
        [] \<Rightarrow> None
      | c # cs \<Rightarrow>
          (case digit_val c of
             None \<Rightarrow> None
           | Some d \<Rightarrow>
               if d = 0 then
                 (case cs of c' # _ \<Rightarrow> if digit_val c' \<noteq> None then None else Some (0, cs) | [] \<Rightarrow> Some (0, cs))
               else Some (scan_digits d cs)))"

definition number_end :: "string \<Rightarrow> bool" where
  "number_end rest = (case rest of [] \<Rightarrow> True | c # _ \<Rightarrow> c \<noteq> CHR ''.'' \<and> c \<noteq> CHR ''e'' \<and> c \<noteq> CHR ''E'')"

definition lex_number :: "string \<Rightarrow> (token \<times> string) option" where
  "lex_number s =
     (let (neg, s1) = (case s of c # cs \<Rightarrow> if c = CHR ''-'' then (True, cs) else (False, s) | [] \<Rightarrow> (False, s))
      in case scan_uint s1 of
           None \<Rightarrow> None
         | Some (n, rest) \<Rightarrow>
             if number_end rest then Some (T_num (if neg then - int n else int n), rest) else None)"

definition lex_token :: "string \<Rightarrow> (token \<times> string) option" where
  "lex_token s =
     (case s of
        [] \<Rightarrow> None
      | c # cs \<Rightarrow>
          if c = CHR ''['' then Some (T_lbrack, cs)
          else if c = CHR '']'' then Some (T_rbrack, cs)
          else if c = CHR ''{'' then Some (T_lbrace, cs)
          else if c = CHR ''}'' then Some (T_rbrace, cs)
          else if c = CHR '','' then Some (T_comma, cs)
          else if c = CHR '':'' then Some (T_colon, cs)
          else if c = CHR 0x22 then map_option (\<lambda>(v, r). (T_str v, r)) (scan_str [] cs)
          else if take 4 s = ''true'' then Some (T_true, drop 4 s)
          else if take 5 s = ''false'' then Some (T_false, drop 5 s)
          else if take 4 s = ''null'' then Some (T_null, drop 4 s)
          else lex_number s)"

subsection \<open>Scanning what the printer writes\<close>

lemma hex_val_hex_char: "k < 16 \<Longrightarrow> hex_val (hex_char k) = Some k"
  by (auto simp: hex_val_def hex_char_def Let_def)

lemma scan_str_escape_char: "scan_str acc (escape_char c @ r) = scan_str (c # acc) r"
proof -
  have c16: "of_char c div 16 < (16::nat)" "of_char c mod 16 < (16::nat)" if "of_char c < (32::nat)"
    using that by simp_all
  have hex: "hex4 (CHR ''0'') (CHR ''0'') (hex_char (of_char c div 16)) (hex_char (of_char c mod 16)) =
      Some (of_char c)" if "of_char c < (32::nat)"
  proof -
    have "hex_val (CHR ''0'') = Some 0" by (simp add: hex_val_def)
    then show ?thesis using c16 [OF that] by (simp add: hex4_def hex_val_hex_char)
  qed
  show ?thesis
    unfolding escape_char_def by (simp add: short_escape_def hex)
qed

lemma scan_str_quoted:
  "scan_str acc (concat (map escape_char s) @ CHR 0x22 # rest) = Some (rev acc @ s, rest)"
proof (induction s arbitrary: acc)
  case Nil
  then show ?case by simp
next
  case (Cons c s)
  have "scan_str acc (concat (map escape_char (c # s)) @ CHR 0x22 # rest) =
        scan_str (c # acc) (concat (map escape_char s) @ CHR 0x22 # rest)"
    using scan_str_escape_char [of acc c] by simp
  also have "\<dots> = Some (rev acc @ c # s, rest)" using Cons.IH [of "c # acc"] by simp
  finally show ?case .
qed

lemma digit_val_char: "k < 10 \<Longrightarrow> digit_val (char_of (48 + k)) = Some k"
  by (simp add: digit_val_def)

definition digits_step :: "nat \<Rightarrow> char \<Rightarrow> nat" where
  "digits_step a c = 10 * a + the (digit_val c)"

lemma show_nat_small [simp]: "n < 10 \<Longrightarrow> show_nat n = [char_of (48 + n)]"
  by (simp add: show_nat.simps)

lemma show_nat_big: "\<not> n < 10 \<Longrightarrow> show_nat n = show_nat (n div 10) @ [char_of (48 + n mod 10)]"
  by (simp add: show_nat.simps [of n])

lemma show_nat_digits: "\<forall>c\<in>set (show_nat n). digit_val c \<noteq> None"
proof (induction n rule: show_nat.induct)
  case (1 n)
  then show ?case by (cases "n < 10") (simp_all add: digit_val_char show_nat_big)
qed

lemma show_nat_value: "foldl digits_step acc (show_nat n) = acc * 10 ^ length (show_nat n) + n"
proof (induction n arbitrary: acc rule: show_nat.induct)
  case (1 n)
  show ?case
  proof (cases "n < 10")
    case True
    then show ?thesis by (simp add: digits_step_def digit_val_char)
  next
    case False
    then have "foldl digits_step acc (show_nat n) =
        digits_step (acc * 10 ^ length (show_nat (n div 10)) + n div 10) (char_of (48 + n mod 10))"
      using "1.IH" [OF False] by (simp add: show_nat_big)
    also have "\<dots> = acc * 10 ^ length (show_nat n) + n"
      using False by (simp add: show_nat_big digits_step_def digit_val_char algebra_simps)
    finally show ?thesis .
  qed
qed

lemma scan_digits_append:
  "\<forall>c\<in>set ds. digit_val c \<noteq> None \<Longrightarrow> scan_digits acc (ds @ rest) = scan_digits (foldl digits_step acc ds) rest"
  by (induction ds arbitrary: acc) (auto simp: digits_step_def)

lemma scan_digits_stop: "(case rest of [] \<Rightarrow> True | c # _ \<Rightarrow> digit_val c = None) \<Longrightarrow> scan_digits a rest = (a, rest)"
  by (cases rest) simp_all

lemma show_nat_head:
  "\<exists>(d::nat) ds. show_nat n = char_of (48 + d) # ds \<and> d < 10 \<and> (n = 0 \<longrightarrow> d = 0 \<and> ds = []) \<and> (0 < n \<longrightarrow> 0 < d)"
proof (induction n rule: show_nat.induct)
  case (1 n)
  show ?case
  proof (cases "n < 10")
    case True
    then show ?thesis by (intro exI [of _ n]) simp
  next
    case False
    then obtain d :: nat and ds where "show_nat (n div 10) = char_of (48 + d) # ds" "d < 10" "0 < d"
      using "1.IH" by fastforce
    with False show ?thesis
      by (intro exI [of _ d] exI [of _ "ds @ [char_of (48 + n mod 10)]"]) (simp add: show_nat_big)
  qed
qed

lemma scan_uint_show_nat:
  assumes "case rest of [] \<Rightarrow> True | c # _ \<Rightarrow> digit_val c = None"
  shows "scan_uint (show_nat n @ rest) = Some (n, rest)"
proof -
  obtain d :: nat and ds where n: "show_nat n = char_of (48 + d) # ds" and d: "d < 10"
    and z: "n = 0 \<longrightarrow> d = 0 \<and> ds = []" and p: "0 < n \<longrightarrow> 0 < d"
    using show_nat_head [of n] by blast
  show ?thesis
  proof (cases "n = 0")
    case True
    with z n d assms show ?thesis by (auto simp: scan_uint_def digit_val_def split: list.split)
  next
    case False
    have ds: "\<forall>c\<in>set ds. digit_val c \<noteq> None" using show_nat_digits [of n] n by simp
    have "foldl digits_step d ds = foldl digits_step 0 (show_nat n)"
      using n d by (simp add: digits_step_def digit_val_char)
    also have "\<dots> = n" by (simp add: show_nat_value)
    finally have "scan_digits d (ds @ rest) = (n, rest)"
      using scan_digits_append [OF ds, of d rest] scan_digits_stop [OF assms] by simp
    with False p n d show ?thesis by (simp add: scan_uint_def digit_val_char)
  qed
qed

lemma lex_number_show_int:
  assumes "case rest of [] \<Rightarrow> True | c # _ \<Rightarrow> c = CHR '','' \<or> c = CHR '']'' \<or> c = CHR ''}''"
  shows "lex_number (show_int i @ rest) = Some (T_num i, rest)"
proof -
  have r: "case rest of [] \<Rightarrow> True | c # _ \<Rightarrow> digit_val c = None" and e: "number_end rest"
    using assms by (auto simp: digit_val_def number_end_def split: list.splits)
  obtain d :: nat and ds where h: "show_nat (nat \<bar>i\<bar>) = char_of (48 + d) # ds" and d: "d < 10"
    using show_nat_head [of "nat \<bar>i\<bar>"] by blast
  have "char_of (48 + d) \<noteq> CHR ''-''"
  proof
    assume "char_of (48 + d) = CHR ''-''"
    then have "of_char (char_of (48 + d)) = (of_char (CHR ''-'') :: nat)" by simp
    with d show False by simp
  qed
  then show ?thesis
    using scan_uint_show_nat [OF r, of "nat \<bar>i\<bar>"] h e
    by (cases "i < 0") (auto simp: lex_number_def show_int_def)
qed

lemma lex_token_quote: "lex_token (quote_json s @ r) = Some (T_str s, r)"
  by (simp add: lex_token_def quote_json_def scan_str_quoted)

lemma digit_char_ne:
  assumes "d < (10::nat)" and "of_char c < (48::nat) \<or> (57::nat) < of_char c"
  shows "char_of (48 + d) \<noteq> c"
proof
  assume "char_of (48 + d) = c"
  then have "of_char c = (48 + d :: nat)" using assms(1) by auto
  with assms show False by simp
qed

lemma lex_token_digit:
  assumes "d < (10::nat)"
  shows "lex_token (char_of (48 + d) # cs) = lex_number (char_of (48 + d) # cs)"
  using digit_char_ne [OF assms] by (simp add: lex_token_def)

lemma lex_token_show_int:
  assumes "case rest of [] \<Rightarrow> True | c # _ \<Rightarrow> c = CHR '','' \<or> c = CHR '']'' \<or> c = CHR ''}''"
  shows "lex_token (show_int i @ rest) = Some (T_num i, rest)"
proof -
  obtain d :: nat and ds where h: "show_nat (nat \<bar>i\<bar>) = char_of (48 + d) # ds" and d: "d < 10"
    using show_nat_head [of "nat \<bar>i\<bar>"] by blast
  have "lex_token (show_int i @ rest) = lex_number (show_int i @ rest)"
  proof (cases "i < 0")
    case True
    then show ?thesis by (simp add: show_int_def lex_token_def)
  next
    case False
    then have "show_int i @ rest = char_of (48 + d) # ds @ rest" using h by (simp add: show_int_def)
    then show ?thesis using lex_token_digit [OF d] by simp
  qed
  then show ?thesis using lex_number_show_int [OF assms] by simp
qed

lemma scan_str_shorter: "scan_str acc cs = Some (v, r) \<Longrightarrow> length r < length cs"
proof (induction acc cs rule: scan_str.induct)
  case (1 acc)
  then show ?case by simp
next
  case (2 acc c cs)
  consider (q) "c = CHR 0x22" | (b) "c \<noteq> CHR 0x22" "c = CHR 0x5C" | (o) "c \<noteq> CHR 0x22" "c \<noteq> CHR 0x5C"
    by blast
  then show ?case
  proof cases
    case q
    with "2.prems" show ?thesis by simp
  next
    case b
    with "2.prems" obtain e cs' where cs: "cs = e # cs'" by (cases cs) auto
    show ?thesis
    proof (cases "short_escape e")
      case (Some u)
      with "2.prems" b cs have "scan_str (u # acc) cs' = Some (v, r)" by simp
      with "2.IH"(2) [OF b cs Some] cs show ?thesis by simp
    next
      case None
      with "2.prems" b cs obtain h1 h2 h3 h4 cs'' n where
        cs': "cs' = h1 # h2 # h3 # h4 # cs''" and e: "e = CHR ''u''" and h: "hex4 h1 h2 h3 h4 = Some n"
        and n: "n < 256" and rec: "scan_str (char_of n # acc) cs'' = Some (v, r)"
        by (auto split: if_splits list.splits option.splits)
      have "length r < length cs''"
        using "2.IH"(1) [OF b cs None e] cs' h n rec by fastforce
      with cs cs' show ?thesis by simp
    qed
  next
    case o
    with "2.prems" have "\<not> of_char c < (32::nat)" and "scan_str (c # acc) cs = Some (v, r)"
      by (simp_all split: if_splits)
    with "2.IH"(3) [OF o] show ?thesis by simp
  qed
qed

lemma scan_digits_shorter: "scan_digits a cs = (n, r) \<Longrightarrow> length r \<le> length cs"
  by (induction a cs rule: scan_digits.induct) (auto split: option.splits)

lemma scan_uint_shorter: "scan_uint s = Some (n, r) \<Longrightarrow> length r < length s"
proof (cases s)
  case (Cons c cs)
  assume a: "scan_uint s = Some (n, r)"
  show ?thesis
  proof (cases "digit_val c")
    case (Some d)
    show ?thesis
    proof (cases "d = 0")
      case True
      with a Cons Some show ?thesis by (auto simp: scan_uint_def split: list.splits if_splits)
    next
      case False
      with a Cons Some have "scan_digits d cs = (n, r)" by (simp add: scan_uint_def)
      with Cons show ?thesis by (auto dest: scan_digits_shorter)
    qed
  qed (use a Cons in \<open>simp add: scan_uint_def\<close>)
qed (simp add: scan_uint_def)

lemma lex_number_shorter: "lex_number s = Some (t, r) \<Longrightarrow> length r < length s"
  by (auto simp: lex_number_def split: list.splits option.splits if_splits
      dest!: scan_uint_shorter)

lemma lex_token_shorter: "lex_token s = Some (t, r) \<Longrightarrow> length r < length s"
proof (cases s)
  case Nil
  then show "lex_token s = Some (t, r) \<Longrightarrow> length r < length s" by (simp add: lex_token_def)
next
  case (Cons c cs)
  assume a: "lex_token s = Some (t, r)"
  have str: "length r < length s" if "scan_str [] cs = Some (v, r)" for v
    using scan_str_shorter [OF that] Cons by simp
  have num: "length r < length s" if "lex_number s = Some (t, r)"
    using lex_number_shorter [OF that] .
  have lit: "length (drop k s) < length s" if "0 < k" for k
    using that Cons by simp
  from a Cons str num lit show ?thesis
    by (simp add: lex_token_def split: if_splits) (auto split: prod.splits)
qed

end
