(* ===== verification/DateText.thy ===== *)
theory DateText
  imports Projector DateOrder JsonText "HOL-Library.List_Lexorder" "HOL-Library.Char_ord"
begin

text \<open>
  The due dates as the strings the task holds. With \<open>List_Lexorder\<close> and
  \<open>Char_ord\<close> strings are ordered lexicographically by character code, which for
  two \<^verbatim>\<open>YYYY-MM-DD\<close> strings is the order of their (year, month, day) triples
  (\<open>iso_string_order\<close>: digit strings of one length compare as their values).
  Together with the calendar order of \<open>DateOrder\<close> this gives the order in which the
  due-date sort of \<open>TodoList\<close> lists tasks, stated on the strings.
  \<open>calendar_date_str\<close> says a string is a date that exists.
\<close>

definition calendar_date_str :: "string \<Rightarrow> bool" where
  "calendar_date_str s = (case parse_iso_date s of Some p \<Rightarrow> valid_date p | None \<Rightarrow> False)"

lemma digits_val_Some:
  "digits_val acc a = Some n \<Longrightarrow> (\<forall>c\<in>set a. digit_val c \<noteq> None) \<and> n = foldl digits_step acc a"
  by (induction acc a rule: digits_val.induct) (auto simp: digits_step_def split: option.splits)

lemma digits_step_digit: "digit_val c = Some d \<Longrightarrow> digits_step acc c = 10 * acc + d"
  by (simp add: digits_step_def)

lemma foldl_digits_step_acc:
  "\<forall>c\<in>set a. digit_val c \<noteq> None \<Longrightarrow> foldl digits_step acc a = acc * 10 ^ length a + foldl digits_step 0 a"
proof (induction a arbitrary: acc)
  case Nil
  then show ?case by simp
next
  case (Cons c a)
  then obtain d where d: "digit_val c = Some d" by auto
  have "foldl digits_step acc (c # a) = (10 * acc + d) * 10 ^ length a + foldl digits_step 0 a"
    using Cons.IH [of "10 * acc + d"] Cons.prems d by (simp add: digits_step_digit)
  also have "\<dots> = acc * 10 ^ length (c # a) + (d * 10 ^ length a + foldl digits_step 0 a)"
    by (simp add: algebra_simps)
  also have "d * 10 ^ length a + foldl digits_step 0 a = foldl digits_step 0 (c # a)"
    using Cons.IH [of d] Cons.prems d by (simp add: digits_step_digit)
  finally show ?case .
qed

lemma digit_val_less: "digit_val c = Some d \<Longrightarrow> d < 10"
  by (auto simp: digit_val_def Let_def split: if_splits)

lemma foldl_digits_step_bound:
  "\<forall>c\<in>set a. digit_val c \<noteq> None \<Longrightarrow> foldl digits_step 0 a < 10 ^ length a"
proof (induction a)
  case Nil
  then show ?case by simp
next
  case (Cons c a)
  then obtain d where d: "digit_val c = Some d" by auto
  then have "d < 10" by (rule digit_val_less)
  have "foldl digits_step 0 (c # a) = d * 10 ^ length a + foldl digits_step 0 a"
    using foldl_digits_step_acc [of a d] Cons.prems d by (simp add: digits_step_digit)
  also have "\<dots> < d * 10 ^ length a + 10 ^ length a" using Cons by simp
  also have "\<dots> \<le> 10 * 10 ^ length a" using \<open>d < 10\<close>
    by (metis add.commute mult_Suc less_eq_Suc_le mult_le_mono1)
  finally show ?case by simp
qed

lemma place_value_less:
  fixes x y k p q :: nat
  assumes "x < k" "y < k"
  shows "p * k + x < q * k + y \<longleftrightarrow> p < q \<or> p = q \<and> x < y"
proof (cases p q rule: linorder_cases)
  case less
  then have "p * k + k \<le> q * k" by (metis mult_Suc less_eq_Suc_le mult_le_mono1 add.commute)
  with assms less show ?thesis by simp
next
  case greater
  then have "q * k + k \<le> p * k" by (metis mult_Suc less_eq_Suc_le mult_le_mono1 add.commute)
  with assms greater show ?thesis by simp
qed simp

lemma digit_char_less:
  "digit_val c = Some a \<Longrightarrow> digit_val e = Some b \<Longrightarrow> c < e \<longleftrightarrow> a < b"
  by (auto simp: digit_val_def Let_def less_char_def split: if_splits)

lemma digit_char_eq:
  "digit_val c = Some a \<Longrightarrow> digit_val e = Some b \<Longrightarrow> c = e \<longleftrightarrow> a = b"
proof -
  assume "digit_val c = Some a" "digit_val e = Some b"
  then have "of_char c = (48 + a :: nat)" "of_char e = (48 + b :: nat)"
    by (auto simp: digit_val_def Let_def split: if_splits)
  then show "c = e \<longleftrightarrow> a = b" by (metis add_left_cancel char_of_char)
qed

lemma digit_list_less:
  assumes "\<forall>c\<in>set a. digit_val c \<noteq> None" "\<forall>c\<in>set b. digit_val c \<noteq> None" "length a = length b"
  shows "a < b \<longleftrightarrow> foldl digits_step 0 a < foldl digits_step 0 b"
  using assms
proof (induction a arbitrary: b)
  case Nil
  then show ?case by simp
next
  case (Cons c a)
  then obtain e b' where b: "b = e # b'" by (cases b) auto
  from Cons.prems b obtain dc de where dc: "digit_val c = Some dc" and de: "digit_val e = Some de"
    by auto
  have a: "\<forall>c\<in>set a. digit_val c \<noteq> None" and b': "\<forall>c\<in>set b'. digit_val c \<noteq> None"
    and l: "length a = length b'" using Cons.prems b by auto
  have "foldl digits_step 0 (c # a) = dc * 10 ^ length a + foldl digits_step 0 a"
    using foldl_digits_step_acc [OF a, of dc] dc by (simp add: digits_step_digit)
  moreover have "foldl digits_step 0 (e # b') = de * 10 ^ length a + foldl digits_step 0 b'"
    using foldl_digits_step_acc [OF b', of de] de l by (simp add: digits_step_digit)
  ultimately have "foldl digits_step 0 (c # a) < foldl digits_step 0 (e # b') \<longleftrightarrow>
      dc < de \<or> dc = de \<and> foldl digits_step 0 a < foldl digits_step 0 b'"
    using foldl_digits_step_bound [OF a] foldl_digits_step_bound [OF b'] l
    by (simp add: place_value_less)
  then show ?case
    using Cons.IH [OF a b' l] digit_char_less [OF dc de] digit_char_eq [OF dc de] b by simp
qed

lemma append_less_same_length:
  "length a = length a' \<Longrightarrow> a @ x < a' @ y \<longleftrightarrow> a < a' \<or> a = a' \<and> x < y"
proof (induction a arbitrary: a')
  case Nil
  then show ?case by simp
next
  case (Cons c a)
  then obtain c' a'' where "a' = c' # a''" by (cases a') auto
  with Cons show ?case by auto
qed

lemma parse_iso_date_parts:
  assumes "parse_iso_date s = Some (y, m, d)"
  obtains Y M D where "s = Y @ CHR ''-'' # M @ CHR ''-'' # D"
    "length Y = 4" "length M = 2" "length D = 2"
    "\<forall>c\<in>set Y. digit_val c \<noteq> None" "\<forall>c\<in>set M. digit_val c \<noteq> None" "\<forall>c\<in>set D. digit_val c \<noteq> None"
    "y = int (foldl digits_step 0 Y)" "m = int (foldl digits_step 0 M)" "d = int (foldl digits_step 0 D)"
proof -
  from assms have len: "length s = 10" and d4: "s ! 4 = CHR ''-''" and d7: "s ! 7 = CHR ''-''"
    by (simp_all add: parse_iso_date_def split: if_splits)
  from assms obtain ny nm nd where
    ny: "digits_val 0 (take 4 s) = Some ny" and nm: "digits_val 0 (take 2 (drop 5 s)) = Some nm"
    and nd: "digits_val 0 (drop 8 s) = Some nd" and v: "y = int ny" "m = int nm" "d = int nd"
    by (auto simp: parse_iso_date_def split: if_splits option.splits)
  have "s = take 4 s @ s ! 4 # take 2 (drop 5 s) @ s ! 7 # drop 8 s"
  proof (rule nth_equalityI)
    show "length s = length (take 4 s @ s ! 4 # take 2 (drop 5 s) @ s ! 7 # drop 8 s)"
      using len by simp
    fix i assume "i < length s"
    with len show "s ! i = (take 4 s @ s ! 4 # take 2 (drop 5 s) @ s ! 7 # drop 8 s) ! i"
      by (cases "i = 7") (auto simp: nth_append nth_Cons' min_def)
  qed
  with d4 d7 have "s = take 4 s @ CHR ''-'' # take 2 (drop 5 s) @ CHR ''-'' # drop 8 s" by simp
  then show ?thesis
    using that digits_val_Some [OF ny] digits_val_Some [OF nm] digits_val_Some [OF nd] len v
    by simp
qed

lemma digit_list_eq:
  assumes "\<forall>c\<in>set a. digit_val c \<noteq> None" "\<forall>c\<in>set b. digit_val c \<noteq> None" "length a = length b"
  shows "a = b \<longleftrightarrow> foldl digits_step 0 a = foldl digits_step 0 b"
  using digit_list_less [OF assms] digit_list_less [OF assms(2,1) assms(3) [symmetric]]
  by (metis linorder_neq_iff)

lemma iso_string_order:
  assumes "parse_iso_date s = Some p" "parse_iso_date t = Some q"
  shows "(s < t \<longleftrightarrow> p < q) \<and> (s = t \<longleftrightarrow> p = q)"
proof -
  obtain y m d y' m' d' where p: "p = (y, m, d)" and q: "q = (y', m', d')" by (cases p, cases q) auto
  obtain Y M D where s: "s = Y @ CHR ''-'' # M @ CHR ''-'' # D"
    and l: "length Y = 4" "length M = 2" "length D = 2"
    and dg: "\<forall>c\<in>set Y. digit_val c \<noteq> None" "\<forall>c\<in>set M. digit_val c \<noteq> None" "\<forall>c\<in>set D. digit_val c \<noteq> None"
    and v: "y = int (foldl digits_step 0 Y)" "m = int (foldl digits_step 0 M)" "d = int (foldl digits_step 0 D)"
    using parse_iso_date_parts assms(1) p by metis
  obtain Y' M' D' where t: "t = Y' @ CHR ''-'' # M' @ CHR ''-'' # D'"
    and l': "length Y' = 4" "length M' = 2" "length D' = 2"
    and dg': "\<forall>c\<in>set Y'. digit_val c \<noteq> None" "\<forall>c\<in>set M'. digit_val c \<noteq> None" "\<forall>c\<in>set D'. digit_val c \<noteq> None"
    and v': "y' = int (foldl digits_step 0 Y')" "m' = int (foldl digits_step 0 M')" "d' = int (foldl digits_step 0 D')"
    using parse_iso_date_parts assms(2) q by metis
  have lt: "Y < Y' \<longleftrightarrow> y < y'" "M < M' \<longleftrightarrow> m < m'" "D < D' \<longleftrightarrow> d < d'"
    using digit_list_less [OF dg(1) dg'(1)] digit_list_less [OF dg(2) dg'(2)]
      digit_list_less [OF dg(3) dg'(3)] l l' v v' by simp_all
  have eq: "Y = Y' \<longleftrightarrow> y = y'" "M = M' \<longleftrightarrow> m = m'" "D = D' \<longleftrightarrow> d = d'"
    using digit_list_eq [OF dg(1) dg'(1)] digit_list_eq [OF dg(2) dg'(2)]
      digit_list_eq [OF dg(3) dg'(3)] l l' v v' by simp_all
  have "s < t \<longleftrightarrow> Y < Y' \<or> Y = Y' \<and> (M < M' \<or> M = M' \<and> D < D')"
    unfolding s t using l l' by (simp add: append_less_same_length)
  moreover have "s = t \<longleftrightarrow> Y = Y' \<and> M = M' \<and> D = D'"
    unfolding s t using l l' by (simp add: append_eq_append_conv)
  ultimately show ?thesis using lt eq p q by (auto simp: less_prod_def)
qed

text \<open>
  C14: when every due date that is set is a valid calendar date, the due-date view
  is the dated tasks sorted by their due-date string (stably: ties keep their order)
  followed by the undated tasks in their original order.
\<close>

theorem dueDate_view_by_string:
  assumes "\<forall>t\<in>set todos. dated t \<longrightarrow> calendar_date_str (the (dueDate t))"
  shows "getFilteredTodos todos ''all'' ''dueDate'' =
           sort_key (\<lambda>t. the (dueDate t)) (filter dated todos) @ filter (\<lambda>t. \<not> dated t) todos"
proof -
  have "sign_agrees cmp_dueDate (\<lambda>t. the (dueDate t)) (set (filter dated todos))"
    unfolding sign_agrees_def
  proof (intro ballI)
    fix x y assume x: "x \<in> set (filter dated todos)" and y: "y \<in> set (filter dated todos)"
    obtain sx sy where sx: "dueDate x = Some sx" and sy: "dueDate y = Some sy"
      using x y by (auto simp: js_truthy_str_def split: option.splits)
    have "calendar_date_str sx" "calendar_date_str sy" using assms x y sx sy by auto
    then obtain px py where px: "parse_iso_date sx = Some px" "valid_date px"
      and py: "parse_iso_date sy = Some py" "valid_date py"
      by (auto simp: calendar_date_str_def split: option.splits)
    obtain a b where a: "js_Date sx = Some a" and b: "js_Date sy = Some b" and ab: "a < b \<longleftrightarrow> px < py"
      using js_Date_calendar_order [OF px(1) py(1) px(2) py(2)] by blast
    have "due_ms x = Some a" "due_ms y = Some b" "dated x" "dated y"
      using x y a b sx sy by (simp_all add: due_ms_def)
    then have "(sort_compare cmp_dueDate x y < 0) = (a < b)"
      by (simp add: sort_compare_def cmp_dueDate_def)
    then show "(sort_compare cmp_dueDate x y < 0) = (the (dueDate x) < the (dueDate y))"
      using ab iso_string_order [OF px(1) py(1)] sx sy by simp
  qed
  then have "js_sort cmp_dueDate (filter dated todos) = sort_key (\<lambda>t. the (dueDate t)) (filter dated todos)"
    by (rule js_sort_sort_key)
  then show ?thesis
    by (simp add: getFilteredTodos_def sortTodos_def js_sort_dueDate_split [of todos])
qed

theorem dueDate_view_by_string_witness:
  "getFilteredTodos
     [remote_todo 1 1 ''a'' False, (remote_todo 1 2 ''b'' False)\<lparr>dueDate := Some ''2024-05-02''\<rparr>,
      (remote_todo 1 3 ''c'' False)\<lparr>dueDate := Some ''2024-05-01''\<rparr>] ''all'' ''dueDate'' =
   [(remote_todo 1 3 ''c'' False)\<lparr>dueDate := Some ''2024-05-01''\<rparr>,
    (remote_todo 1 2 ''b'' False)\<lparr>dueDate := Some ''2024-05-02''\<rparr>, remote_todo 1 1 ''a'' False]"
  using dueDate_view_by_string [of "[remote_todo 1 1 ''a'' False,
      (remote_todo 1 2 ''b'' False)\<lparr>dueDate := Some ''2024-05-02''\<rparr>,
      (remote_todo 1 3 ''c'' False)\<lparr>dueDate := Some ''2024-05-01''\<rparr>]"]
  by (simp add: calendar_date_str_def parse_iso_date_def digit_val_def valid_date_def
      days_in_month_def is_leap_def js_truthy_str_def)



end
