(* ===== verification/JsonParse.thy ===== *)
theory JsonParse
  imports JsonText
begin

text \<open>
  \<open>JSON.parse\<close> as a lexer and a parser. The lexer \<open>lex\<close> skips white space and
  takes one token at a time; it is not structurally recursive (a token is a whole
  string or number), so it is a \<open>function\<close> whose termination rests on every token
  consuming input (\<open>lex_token_shorter\<close>). The parser \<open>p_run\<close> is a stack machine
  over the tokens: a stack of open arrays and objects (\<open>frame\<close>) and what may come
  next (\<open>pstate\<close>), so that it rejects what \<open>JSON.parse\<close> rejects (a missing or
  extra comma, a key without a colon, trailing text). \<open>json_tokens\<close> are the tokens
  of a printed value; the lemmas show that lexing a printed value yields them and
  that parsing them yields the value: \<open>JSON_parse (json_print v) = Some v\<close>.
\<close>

function (domintros) lex :: "string \<Rightarrow> token list option" where
  "lex s =
     (case dropWhile is_ws s of
        [] \<Rightarrow> Some []
      | c # cs \<Rightarrow>
          (case lex_token (c # cs) of
             None \<Rightarrow> None
           | Some (t, r) \<Rightarrow> map_option (Cons t) (lex r)))"
  by pat_completeness auto
termination
proof (relation "measure length")
  fix s c cs x t r
  assume d: "dropWhile is_ws s = c # cs" and "lex_token (c # cs) = Some x" and "(t, r) = x"
  then have "length r < length (c # cs)" using lex_token_shorter [of "c # cs" t r] by simp
  also have "length (c # cs) \<le> length s" unfolding d [symmetric] by (rule length_dropWhile_le)
  finally show "(r, s) \<in> measure length" by simp
qed simp

declare lex.simps [simp del]

datatype frame = F_arr "json list" | F_obj "(string \<times> json) list" | F_key "(string \<times> json) list" string

datatype pstate = P_value bool | P_key bool | P_colon string | P_after json

fun p_step :: "token \<Rightarrow> frame list \<Rightarrow> pstate \<Rightarrow> (frame list \<times> pstate) option" where
  "p_step t st (P_value close_ok) =
     (case t of
        T_lbrack \<Rightarrow> Some (F_arr [] # st, P_value True)
      | T_lbrace \<Rightarrow> Some (F_obj [] # st, P_key True)
      | T_rbrack \<Rightarrow>
          (if close_ok then (case st of F_arr [] # st' \<Rightarrow> Some (st', P_after (JArr [])) | _ \<Rightarrow> None)
           else None)
      | T_str s \<Rightarrow> Some (st, P_after (JStr s))
      | T_num n \<Rightarrow> Some (st, P_after (JNum n))
      | T_true \<Rightarrow> Some (st, P_after (JBool True))
      | T_false \<Rightarrow> Some (st, P_after (JBool False))
      | T_null \<Rightarrow> Some (st, P_after JNull)
      | _ \<Rightarrow> None)"
| "p_step t st (P_key close_ok) =
     (case t of
        T_str k \<Rightarrow> Some (st, P_colon k)
      | T_rbrace \<Rightarrow>
          (if close_ok then (case st of F_obj [] # st' \<Rightarrow> Some (st', P_after (JObj [])) | _ \<Rightarrow> None)
           else None)
      | _ \<Rightarrow> None)"
| "p_step t st (P_colon k) =
     (case (t, st) of
        (T_colon, F_obj ms # st') \<Rightarrow> Some (F_key ms k # st', P_value False)
      | _ \<Rightarrow> None)"
| "p_step t st (P_after v) =
     (case (t, st) of
        (T_comma, F_arr vs # st') \<Rightarrow> Some (F_arr (v # vs) # st', P_value False)
      | (T_rbrack, F_arr vs # st') \<Rightarrow> Some (st', P_after (JArr (rev (v # vs))))
      | (T_comma, F_key ms k # st') \<Rightarrow> Some (F_obj ((k, v) # ms) # st', P_key False)
      | (T_rbrace, F_key ms k # st') \<Rightarrow> Some (st', P_after (JObj (rev ((k, v) # ms))))
      | _ \<Rightarrow> None)"

fun p_run :: "token list \<Rightarrow> frame list \<Rightarrow> pstate \<Rightarrow> json option" where
  "p_run [] st p = (case (st, p) of ([], P_after v) \<Rightarrow> Some v | _ \<Rightarrow> None)"
| "p_run (t # ts) st p = (case p_step t st p of None \<Rightarrow> None | Some (st', p') \<Rightarrow> p_run ts st' p')"

definition JSON_parse :: "string \<Rightarrow> json option" where
  "JSON_parse s = (case lex s of None \<Rightarrow> None | Some ts \<Rightarrow> p_run ts [] (P_value False))"

fun join_toks :: "token list list \<Rightarrow> token list" where
  "join_toks [] = []"
| "join_toks [ts] = ts"
| "join_toks (ts # tss) = ts @ T_comma # join_toks tss"

fun json_tokens :: "json \<Rightarrow> token list" where
  "json_tokens JNull = [T_null]"
| "json_tokens (JBool b) = [if b then T_true else T_false]"
| "json_tokens (JNum n) = [T_num n]"
| "json_tokens (JStr s) = [T_str s]"
| "json_tokens (JArr vs) = T_lbrack # join_toks (map json_tokens vs) @ [T_rbrack]"
| "json_tokens (JObj ms) =
     T_lbrace # join_toks (map (\<lambda>(k, v). T_str k # T_colon # json_tokens v) ms) @ [T_rbrace]"

definition value_end :: "string \<Rightarrow> bool" where
  "value_end r = (case r of [] \<Rightarrow> True | c # _ \<Rightarrow> c = CHR '','' \<or> c = CHR '']'' \<or> c = CHR ''}'')"

abbreviation parses_back :: "json \<Rightarrow> bool" where
  "parses_back v \<equiv> \<forall>ts st b. p_run (json_tokens v @ ts) st (P_value b) = p_run ts st (P_after v)"

subsection \<open>Printed values lex and parse back\<close>

lemma lex_Nil [simp]: "lex [] = Some []"
  by (simp add: lex.simps)

lemma lex_token_step:
  assumes "\<not> is_ws c" and "lex_token (c # cs) = Some (t, r)"
  shows "lex (c # cs) = map_option (Cons t) (lex r)"
  using assms by (simp add: lex.simps [of "c # cs"])

lemma lex_punct [simp]:
  "lex (CHR ''['' # r) = map_option (Cons T_lbrack) (lex r)"
  "lex (CHR '']'' # r) = map_option (Cons T_rbrack) (lex r)"
  "lex (CHR ''{'' # r) = map_option (Cons T_lbrace) (lex r)"
  "lex (CHR ''}'' # r) = map_option (Cons T_rbrace) (lex r)"
  "lex (CHR '','' # r) = map_option (Cons T_comma) (lex r)"
  "lex (CHR '':'' # r) = map_option (Cons T_colon) (lex r)"
  by (simp_all add: lex_token_step is_ws_def lex_token_def)

lemma lex_quote: "lex (quote_json s @ r) = map_option (Cons (T_str s)) (lex r)"
proof -
  have e: "quote_json s @ r = CHR 0x22 # (concat (map escape_char s) @ CHR 0x22 # r)"
    by (simp add: quote_json_def)
  have "lex_token (CHR 0x22 # (concat (map escape_char s) @ CHR 0x22 # r)) = Some (T_str s, r)"
    by (simp add: lex_token_def scan_str_quoted)
  then show ?thesis unfolding e by (rule lex_token_step [rotated]) (simp add: is_ws_def)
qed

lemma lex_show_int:
  assumes "value_end r"
  shows "lex (show_int i @ r) = map_option (Cons (T_num i)) (lex r)"
proof -
  have tok: "lex_token (show_int i @ r) = Some (T_num i, r)"
    using lex_token_show_int assms by (simp add: value_end_def)
  obtain d :: nat and ds where h: "show_nat (nat \<bar>i\<bar>) = char_of (48 + d) # ds" and d: "d < 10"
    using show_nat_head [of "nat \<bar>i\<bar>"] by blast
  obtain c cs where cs: "show_int i @ r = c # cs" and ws: "\<not> is_ws c"
  proof (cases "i < 0")
    case True
    then show ?thesis using that [of "CHR ''-''"] by (simp add: show_int_def is_ws_def)
  next
    case False
    have "\<not> is_ws (char_of (48 + d))" using digit_char_ne [OF d] by (auto simp: is_ws_def)
    with False h show ?thesis using that [of "char_of (48 + d)"] by (simp add: show_int_def)
  qed
  show ?thesis using lex_token_step [OF ws] tok cs by simp
qed

lemma lex_keyword:
  "lex (''null'' @ r) = map_option (Cons T_null) (lex r)"
  "lex (''true'' @ r) = map_option (Cons T_true) (lex r)"
  "lex (''false'' @ r) = map_option (Cons T_false) (lex r)"
  by (simp_all add: lex_token_step is_ws_def lex_token_def)

lemma lex_join:
  assumes "list_all2 (\<lambda>s ts. \<forall>r. value_end r \<longrightarrow> lex (s @ r) = map_option ((@) ts) (lex r)) ss tss"
    and "value_end r"
  shows "lex (join_commas ss @ r) = map_option ((@) (join_toks tss)) (lex r)"
  using assms
proof (induction ss arbitrary: tss rule: join_commas.induct)
  case 1
  then show ?case by (simp add: option.map_ident)
next
  case (2 s)
  then show ?case by (auto simp: list_all2_Cons1)
next
  case (3 s v va)
  from "3.prems"(1) obtain ts ts' tss' where tss: "tss = ts # ts' # tss'"
    and h: "\<forall>r. value_end r \<longrightarrow> lex (s @ r) = map_option ((@) ts) (lex r)"
    and t: "list_all2 (\<lambda>s ts. \<forall>r. value_end r \<longrightarrow> lex (s @ r) = map_option ((@) ts) (lex r)) (v # va) (ts' # tss')"
    by (auto simp: list_all2_Cons1)
  have "lex (join_commas (s # v # va) @ r) = lex (s @ CHR '','' # (join_commas (v # va) @ r))" by simp
  also have "\<dots> = map_option ((@) ts) (lex (CHR '','' # (join_commas (v # va) @ r)))"
    using h by (simp add: value_end_def)
  also have "\<dots> = map_option ((@) (join_toks tss)) (lex r)"
    using "3.IH" [OF t "3.prems"(2)] tss by (simp add:)
  finally show ?case .
qed

lemma lex_print: "value_end r \<Longrightarrow> lex (json_print v @ r) = map_option ((@) (json_tokens v)) (lex r)"
proof (induction v arbitrary: r)
  case JNull
  then show ?case by (simp add: lex_keyword [simplified])
next
  case (JBool b)
  then show ?case by (cases b) (simp_all add: lex_keyword [simplified])
next
  case (JNum n)
  then show ?case by (simp add: lex_show_int)
next
  case (JStr s)
  then show ?case by (simp add: lex_quote)
next
  case (JArr vs)
  have "list_all2 (\<lambda>s ts. \<forall>r. value_end r \<longrightarrow> lex (s @ r) = map_option ((@) ts) (lex r))
      (map json_print vs) (map json_tokens vs)"
    using JArr.IH by (simp add: list_all2_map_same)
  from lex_join [OF this, of "CHR '']'' # r"]
  show ?case by (cases "lex r") (simp_all add: value_end_def)
next
  case (JObj ms)
  have "list_all2 (\<lambda>s ts. \<forall>r. value_end r \<longrightarrow> lex (s @ r) = map_option ((@) ts) (lex r))
      (map (\<lambda>(k, v). quote_json k @ CHR '':'' # json_print v) ms)
      (map (\<lambda>(k, v). T_str k # T_colon # json_tokens v) ms)"
    unfolding list_all2_map_same
  proof
    fix m assume m: "m \<in> set ms"
    obtain k v where kv: "m = (k, v)" by (cases m)
    have "lex (json_print v @ r) = map_option ((@) (json_tokens v)) (lex r)" if "value_end r" for r
      using JObj.IH [OF m, of v] kv that by simp
    then show "(\<lambda>s ts. \<forall>r. value_end r \<longrightarrow> lex (s @ r) = map_option ((@) ts) (lex r))
        ((\<lambda>(k, v). quote_json k @ CHR '':'' # json_print v) m) ((\<lambda>(k, v). T_str k # T_colon # json_tokens v) m)"
      by (simp add: kv lex_quote)
  qed
  from lex_join [OF this, of "CHR ''}'' # r"]
  show ?case by (cases "lex r") (simp_all add: value_end_def)
qed

lemma p_run_elems:
  assumes "\<forall>v\<in>set vs. parses_back v" and "vs \<noteq> []"
  shows "p_run (join_toks (map json_tokens vs) @ T_rbrack # ts) (F_arr acc # st) (P_value b) =
         p_run ts st (P_after (JArr (rev acc @ vs)))"
  using assms
proof (induction vs arbitrary: acc b)
  case Nil
  then show ?case by simp
next
  case (Cons v vs)
  show ?case
  proof (cases vs)
    case Nil
    with Cons.prems show ?thesis by simp
  next
    case (Cons v' vs')
    have "p_run (join_toks (map json_tokens (v # vs)) @ T_rbrack # ts) (F_arr acc # st) (P_value b) =
          p_run (T_comma # join_toks (map json_tokens vs) @ T_rbrack # ts) (F_arr acc # st) (P_after v)"
      using Cons.prems(1) Cons by simp
    also have "\<dots> = p_run ts st (P_after (JArr (rev (v # acc) @ vs)))"
      using Cons.IH [of "v # acc" False] Cons.prems(1) Cons by simp
    finally show ?thesis by simp
  qed
qed

lemma p_run_members:
  assumes "\<forall>m\<in>set ms. parses_back (snd m)" and "ms \<noteq> []"
  shows "p_run (join_toks (map (\<lambda>(k, v). T_str k # T_colon # json_tokens v) ms) @ T_rbrace # ts)
            (F_obj acc # st) (P_key b) =
         p_run ts st (P_after (JObj (rev acc @ ms)))"
  using assms
proof (induction ms arbitrary: acc b)
  case Nil
  then show ?case by simp
next
  case (Cons m ms)
  obtain k v where m: "m = (k, v)" by (cases m)
  show ?case
  proof (cases ms)
    case Nil
    with Cons.prems m show ?thesis by simp
  next
    case (Cons m' ms')
    have "p_run (join_toks (map (\<lambda>(k, v). T_str k # T_colon # json_tokens v) (m # ms)) @ T_rbrace # ts)
            (F_obj acc # st) (P_key b) =
          p_run (T_comma # join_toks (map (\<lambda>(k, v). T_str k # T_colon # json_tokens v) ms) @ T_rbrace # ts)
            (F_key acc k # st) (P_after v)"
      using Cons.prems(1) Cons m by simp
    also have "\<dots> = p_run ts st (P_after (JObj (rev ((k, v) # acc) @ ms)))"
      using Cons.IH [of "(k, v) # acc" False] Cons.prems(1) Cons by simp
    finally show ?thesis by (simp add: m)
  qed
qed

lemma p_run_value: "parses_back v"
proof (induction v)
  case (JArr vs)
  show ?case
  proof (intro allI)
    fix ts st b
    show "p_run (json_tokens (JArr vs) @ ts) st (P_value b) = p_run ts st (P_after (JArr vs))"
    proof (cases "vs = []")
      case True
      then show ?thesis by simp
    next
      case False
      from p_run_elems [OF _ False, of ts "[]" st True] JArr.IH show ?thesis by simp
    qed
  qed
next
  case (JObj ms)
  have h: "\<forall>m\<in>set ms. parses_back (snd m)"
  proof
    fix m assume m: "m \<in> set ms"
    obtain k v where kv: "m = (k, v)" by (cases m)
    have "v \<in> Basic_BNFs.snds (k, v)" by (simp add: snds.intros)
    with JObj.IH [OF m [unfolded kv]] kv show "parses_back (snd m)" by simp
  qed
  show ?case
  proof (intro allI)
    fix ts st b
    show "p_run (json_tokens (JObj ms) @ ts) st (P_value b) = p_run ts st (P_after (JObj ms))"
    proof (cases "ms = []")
      case True
      then show ?thesis by simp
    next
      case False
      from p_run_members [OF h False, of ts "[]" st True] show ?thesis by simp
    qed
  qed
qed simp_all

lemma JSON_parse_print: "JSON_parse (json_print v) = Some v"
proof -
  have "lex (json_print v @ []) = Some (json_tokens v)"
    using lex_print [of "[]" v] by (simp add: value_end_def)
  moreover have "p_run (json_tokens v @ []) [] (P_value False) = p_run [] [] (P_after v)"
    using p_run_value [of v] by blast
  ultimately show ?thesis by (simp add: JSON_parse_def)
qed

end
