(* ===== verification/App.thy ===== *)
theory App
  imports Store
begin

text \<open>
  The Store/Seeder of \<^verbatim>\<open>src/src/App.js\<close> as a state machine. The state holds
  the three \<open>useState\<close> variables of \<open>App\<close> (\<open>todos\<close>, \<open>loading\<close>, \<open>error\<close>),
  the \<^verbatim>\<open>localStorage\<close> slot \<open>"todos"\<close>, and the point the asynchronous
  \<open>fetchTodos\<close> has reached. Events are the mount effect, the completion of the seed
  fetch, a user event (a batch of handler calls), and a page reload, which keeps only
  the storage. After every commit that sets \<open>todos\<close> the persistence effect runs.
\<close>

text \<open>
  The stored string, classified by what \<open>JSON.parse\<close> makes of it: absent
  (\<open>null\<close>), the empty string (falsy, like \<open>null\<close>), the serialisation of a
  task list, or a string that does not parse (with the message of the error thrown).
  Stored JSON that parses to something other than an array is not modelled.
\<close>

datatype slot = No_item | Item_empty | Item_json "todo list" | Item_malformed string

text \<open>
  The seed response as \<open>response.json()\<close> delivers it: the parsed array, or the
  message of the network or parse error.
\<close>

datatype fetch_result = Fetch_ok "todo list" | Fetch_failed string

datatype phase = Mounting | Fetching | Ready

record app =
  app_todos :: "todo list"
  app_loading :: bool
  app_error :: "string option"
  app_storage :: slot
  app_phase :: phase

text \<open>\<open>useState([])\<close>, \<open>useState(true)\<close>, \<open>useState(null)\<close>, with whatever is stored.\<close>

definition init_app :: "slot \<Rightarrow> app" where
  "init_app st =
     \<lparr>app_todos = [], app_loading = True, app_error = None, app_storage = st, app_phase = Mounting\<rparr>"

text \<open>The persistence effect (lines 41--45): it writes only a non-empty list.\<close>

definition persist_todos :: "app \<Rightarrow> app" where
  "persist_todos s =
     (if length (app_todos s) > 0 then s\<lparr>app_storage := Item_json (app_todos s)\<rparr> else s)"

text \<open>
  \<open>fetchTodos\<close> up to its first \<open>await\<close> (lines 13--24): a stored list is adopted
  and loading ends; a stored string that does not parse throws inside the \<open>try\<close>, so
  the \<open>catch\<close> records the error and \<open>finally\<close> ends loading; otherwise the fetch
  starts.
\<close>

definition fetchTodos_start :: "app \<Rightarrow> app" where
  "fetchTodos_start s =
     (let s1 = s\<lparr>app_loading := True\<rparr> in
      case app_storage s1 of
        Item_json saved \<Rightarrow>
          persist_todos (s1\<lparr>app_todos := saved, app_loading := False, app_phase := Ready\<rparr>)
      | Item_malformed msg \<Rightarrow> s1\<lparr>app_error := Some msg, app_loading := False, app_phase := Ready\<rparr>
      | _ \<Rightarrow> s1\<lparr>app_phase := Fetching\<rparr>)"

text \<open>
  The rest of \<open>fetchTodos\<close> (lines 24--36): the first five records are adopted and
  written to storage; an error is recorded; loading ends either way.
\<close>

definition fetchTodos_resume :: "fetch_result \<Rightarrow> app \<Rightarrow> app" where
  "fetchTodos_resume r s =
     (case r of
        Fetch_ok data \<Rightarrow>
          (let initialTodos = take 5 data in
           persist_todos (s\<lparr>app_todos := initialTodos, app_storage := Item_json initialTodos,
                            app_loading := False, app_phase := Ready\<rparr>))
      | Fetch_failed msg \<Rightarrow> s\<lparr>app_error := Some msg, app_loading := False, app_phase := Ready\<rparr>)"

text \<open>
  A user event: the handler calls it makes, queued against the current render and
  flushed, then the persistence effect.
\<close>

definition user_batch :: "action list \<Rightarrow> app \<Rightarrow> app" where
  "user_batch acts s =
     persist_todos
       (s\<lparr>app_todos := flush_updates (app_todos s) (map (setTodos_call (app_todos s)) acts)\<rparr>)"

definition reload :: "app \<Rightarrow> app" where
  "reload s = init_app (app_storage s)"

datatype app_event = Mount | Fetch_done fetch_result | User "action list" | Reload

text \<open>
  One event, \<open>None\<close> where it cannot happen: the mount effect runs once, the fetch
  completes only while it is pending, and the form and the list exist only once
  \<open>loading\<close> is false (lines 78--80).
\<close>

fun app_step :: "app \<Rightarrow> app_event \<Rightarrow> app option" where
  "app_step s Mount = (if app_phase s = Mounting then Some (fetchTodos_start s) else None)"
| "app_step s (Fetch_done r) =
     (if app_phase s = Fetching then Some (fetchTodos_resume r s) else None)"
| "app_step s (User acts) = (if \<not> app_loading s then Some (user_batch acts s) else None)"
| "app_step s Reload = Some (reload s)"

fun app_run :: "app \<Rightarrow> app_event list \<Rightarrow> app option" where
  "app_run s [] = Some s"
| "app_run s (e # es) = (case app_step s e of None \<Rightarrow> None | Some s' \<Rightarrow> app_run s' es)"

inductive reachable :: "app \<Rightarrow> bool" where
  start: "reachable (init_app st)"
| step: "reachable s \<Longrightarrow> app_step s e = Some s' \<Longrightarrow> reachable s'"

subsection \<open>Shared facts\<close>

text \<open>A stored value that \<open>fetchTodos\<close> does not replace by a fetch.\<close>

fun written :: "slot \<Rightarrow> bool" where
  "written (Item_json _) = True"
| "written (Item_malformed _) = True"
| "written _ = False"

text \<open>
  The invariant of the reachable states: \<open>loading\<close> is true exactly until the
  mount effect or the fetch has finished; before that the list is empty; a pending
  fetch means nothing usable was stored; and a non-empty list is what is stored.
\<close>

definition app_inv :: "app \<Rightarrow> bool" where
  "app_inv s \<longleftrightarrow>
     (app_loading s \<longleftrightarrow> app_phase s \<noteq> Ready) \<and>
     (app_phase s \<noteq> Ready \<longrightarrow> app_todos s = []) \<and>
     (app_phase s = Fetching \<longrightarrow> \<not> written (app_storage s)) \<and>
     (app_todos s \<noteq> [] \<longrightarrow> app_storage s = Item_json (app_todos s))"

lemma persist_todos_fields [simp]:
  "app_todos (persist_todos s) = app_todos s"
  "app_loading (persist_todos s) = app_loading s"
  "app_error (persist_todos s) = app_error s"
  "app_phase (persist_todos s) = app_phase s"
  "app_storage (persist_todos s) =
     (if app_todos s = [] then app_storage s else Item_json (app_todos s))"
  by (simp_all add: persist_todos_def)

lemma fetchTodos_start_simps [simp]:
  "fetchTodos_start s = (case app_storage s of
       Item_json saved \<Rightarrow>
         persist_todos (s\<lparr>app_todos := saved, app_loading := False, app_phase := Ready\<rparr>)
     | Item_malformed msg \<Rightarrow> s\<lparr>app_error := Some msg, app_loading := False, app_phase := Ready\<rparr>
     | _ \<Rightarrow> s\<lparr>app_loading := True, app_phase := Fetching\<rparr>)"
  by (simp add: fetchTodos_start_def split: slot.split)

lemma user_batch_fields [simp]:
  "app_phase (user_batch acts s) = app_phase s"
  "app_loading (user_batch acts s) = app_loading s"
  "app_todos (user_batch acts s) = flush_updates (app_todos s) (map (setTodos_call (app_todos s)) acts)"
  by (simp_all add: user_batch_def)

lemma init_app_fields [simp]:
  "app_todos (init_app st) = []" "app_loading (init_app st) = True"
  "app_error (init_app st) = None" "app_storage (init_app st) = st"
  "app_phase (init_app st) = Mounting"
  by (simp_all add: init_app_def)

lemma app_inv_init: "app_inv (init_app st)"
  by (simp add: app_inv_def)

lemma app_step_inv:
  assumes "app_inv s" and "app_step s e = Some s'"
  shows "app_inv s'"
proof (cases e)
  case Mount
  with assms show ?thesis
    by (auto simp: app_inv_def split: if_splits slot.splits)
next
  case (Fetch_done r)
  with assms show ?thesis
    by (auto simp: app_inv_def fetchTodos_resume_def Let_def split: if_splits fetch_result.splits)
next
  case (User acts)
  with assms show ?thesis
    by (auto simp: app_inv_def user_batch_def split: if_splits)
next
  case Reload
  with assms show ?thesis
    by (auto simp: app_inv_def reload_def)
qed

lemma reachable_inv: "reachable s \<Longrightarrow> app_inv s"
  by (induction rule: reachable.induct) (auto intro: app_inv_init app_step_inv)

lemma app_step_written:
  "app_step s e = Some s' \<Longrightarrow> written (app_storage s) \<Longrightarrow> written (app_storage s')"
  by (cases e) (auto simp: fetchTodos_resume_def user_batch_def reload_def Let_def
      split: if_splits slot.splits fetch_result.splits)

lemma reachable_loaded: "reachable (fetchTodos_start (init_app st))"
proof (rule reachable.step)
  show "reachable (init_app st)" by (rule reachable.start)
  show "app_step (init_app st) Mount = Some (fetchTodos_start (init_app st))" by simp
qed

subsection \<open>Properties of the application lifecycle\<close>

text \<open>
  C19: in every reachable state \<open>loading\<close> is true exactly while the mount effect
  or the seed fetch is unfinished, the list is empty until then, a pending fetch
  means nothing usable was stored, and a non-empty list is exactly what is stored.
\<close>

theorem reachable_app_inv:
  assumes "reachable s"
  shows "(app_loading s \<longleftrightarrow> app_phase s \<noteq> Ready) \<and>
         (app_phase s \<noteq> Ready \<longrightarrow> app_todos s = []) \<and>
         (app_phase s = Fetching \<longrightarrow> \<not> written (app_storage s)) \<and>
         (app_todos s \<noteq> [] \<longrightarrow> app_storage s = Item_json (app_todos s))"
  using reachable_inv [OF assms] by (simp add: app_inv_def)

theorem reachable_app_inv_witness:
  "app_loading (init_app No_item) \<and> app_todos (init_app No_item) = [] \<and>
   \<not> written (app_storage (init_app No_item))"
  using reachable_app_inv [OF reachable.start [of No_item]] by simp

text \<open>
  C20: a reload restores a non-empty list: from any reachable state whose list is
  non-empty, a reload followed by the mount effect comes back, loaded, with the same
  list.
\<close>

theorem reload_restores_list:
  assumes "reachable s" and "app_todos s \<noteq> []"
  shows "\<exists>s'. app_run s [Reload, Mount] = Some s' \<and>
           app_todos s' = app_todos s \<and> \<not> app_loading s' \<and> app_phase s' = Ready"
proof -
  from reachable_inv [OF assms(1)] assms(2)
  have "app_storage s = Item_json (app_todos s)" by (simp add: app_inv_def)
  then show ?thesis by (simp add: reload_def)
qed

theorem reload_restores_list_witness:
  "\<exists>s'. app_run (fetchTodos_start (init_app (Item_json [remote_todo 1 1 ''a'' False])))
          [Reload, Mount] = Some s' \<and> app_todos s' = [remote_todo 1 1 ''a'' False]"
proof -
  let ?s = "fetchTodos_start (init_app (Item_json [remote_todo 1 1 ''a'' False]))"
  have t: "app_todos ?s = [remote_todo 1 1 ''a'' False]" by simp
  then have "app_todos ?s \<noteq> []" by simp
  from reload_restores_list [OF reachable_loaded this] obtain s'
    where "app_run ?s [Reload, Mount] = Some s'" and "app_todos s' = app_todos ?s"
    by blast
  with t show ?thesis by auto
qed

text \<open>
  C21: deleting the last tasks is not persisted. When a user event empties a
  non-empty list, the persistence effect writes nothing, and the next reload brings
  back the list as it was before the event.
\<close>

theorem emptied_list_resurrects:
  assumes "reachable s" and "app_todos s \<noteq> []"
    and "app_step s (User acts) = Some s1" and "app_todos s1 = []"
  shows "\<exists>s2. app_run s1 [Reload, Mount] = Some s2 \<and> app_todos s2 = app_todos s"
proof -
  from reachable_inv [OF assms(1)] assms(2)
  have stored: "app_storage s = Item_json (app_todos s)" by (simp add: app_inv_def)
  from assms(3) have "s1 = user_batch acts s" by (auto split: if_splits)
  with assms(4) have "s1 = user_batch acts s" "app_todos (user_batch acts s) = []" by simp_all
  with stored have "app_storage s1 = Item_json (app_todos s)"
    by (simp add: user_batch_def)
  then show ?thesis by (simp add: reload_def)
qed

theorem emptied_list_resurrects_witness:
  "\<exists>s2. app_run (user_batch [Delete 1] (fetchTodos_start (init_app (Item_json [remote_todo 1 1 ''a'' False]))))
          [Reload, Mount] = Some s2 \<and> app_todos s2 = [remote_todo 1 1 ''a'' False]"
proof -
  let ?s = "fetchTodos_start (init_app (Item_json [remote_todo 1 1 ''a'' False]))"
  have r: "reachable ?s" by (rule reachable_loaded)
  have t: "app_todos ?s = [remote_todo 1 1 ''a'' False]" by simp
  have u: "app_step ?s (User [Delete 1]) = Some (user_batch [Delete 1] ?s)" by simp
  have e: "app_todos (user_batch [Delete 1] ?s) = []" by (simp add: deleteTodo_def)
  show ?thesis using emptied_list_resurrects [OF r _ u e] t by simp
qed

text \<open>
  C22: seeding. With nothing usable stored, the mount effect starts the fetch, and
  its completion adopts the first five records returned, in the order returned,
  writes them to storage, and ends loading without an error.
\<close>

theorem seed_takes_first_five:
  assumes "st = No_item \<or> st = Item_empty"
  shows "\<exists>s. app_run (init_app st) [Mount, Fetch_done (Fetch_ok data)] = Some s \<and>
           app_todos s = take 5 data \<and> app_storage s = Item_json (take 5 data) \<and>
           \<not> app_loading s \<and> app_error s = None"
  using assms by (auto simp: fetchTodos_resume_def Let_def)

theorem seed_takes_first_five_witness:
  "\<exists>s. app_run (init_app No_item)
          [Mount, Fetch_done (Fetch_ok (map (\<lambda>i. remote_todo 1 i ''t'' False) [1..8]))] = Some s \<and>
        length (app_todos s) = 5"
proof -
  obtain s where "app_run (init_app No_item)
          [Mount, Fetch_done (Fetch_ok (map (\<lambda>i. remote_todo 1 i ''t'' False) [1..8]))] = Some s"
    and "app_todos s = take 5 (map (\<lambda>i. remote_todo 1 i ''t'' False) [1..8])"
    using seed_takes_first_five [of No_item "map (\<lambda>i. remote_todo 1 i ''t'' False) [1..8]"] by auto
  moreover have "length (take 5 (map (\<lambda>i. remote_todo 1 i ''t'' False) [1..(8::int)])) = 5"
    by simp
  ultimately show ?thesis by auto
qed

text \<open>
  C23: seeded tasks are stored as the API returns them: they have no
  \<open>createdAt\<close>, \<open>description\<close>, \<open>priority\<close> or \<open>dueDate\<close>, and keep the
  API's \<open>completed\<close>, where the spec has them take the defaults of an added task.
\<close>

theorem seeded_tasks_lack_defaults:
  assumes "st = No_item \<or> st = Item_empty"
  shows "\<exists>s. app_run (init_app st)
             [Mount, Fetch_done (Fetch_ok (map (\<lambda>(u, i, t, c). remote_todo u i t c) recs))] = Some s \<and>
           (\<forall>x\<in>set (app_todos s). createdAt x = None \<and> description x = None \<and>
              priority x = None \<and> dueDate x = None) \<and>
           map completed (app_todos s) = map (\<lambda>(u, i, t, c). c) (take 5 recs)"
  using assms by (auto simp: fetchTodos_resume_def Let_def take_map split: prod.splits)

theorem seeded_tasks_lack_defaults_witness:
  "\<exists>s. app_run (init_app No_item)
          [Mount, Fetch_done (Fetch_ok (map (\<lambda>(u, i, t, c). remote_todo u i t c) [(1, 1, ''a'', True)]))] = Some s \<and>
        (\<forall>x\<in>set (app_todos s). priority x = None) \<and> map completed (app_todos s) = [True]"
  using seeded_tasks_lack_defaults [of No_item "[(1, 1, ''a'', True)]"] by auto

text \<open>
  C24: a failed seed fetch records its message, ends loading, and leaves the list
  empty and the storage as it was; nothing retries it.
\<close>

theorem fetch_error_recorded:
  assumes "st = No_item \<or> st = Item_empty"
  shows "\<exists>s. app_run (init_app st) [Mount, Fetch_done (Fetch_failed msg)] = Some s \<and>
           app_todos s = [] \<and> app_error s = Some msg \<and> \<not> app_loading s \<and>
           app_storage s = st \<and> app_step s (Fetch_done r) = None"
  using assms by (auto simp: fetchTodos_resume_def)

theorem fetch_error_recorded_witness:
  "\<exists>s. app_run (init_app No_item) [Mount, Fetch_done (Fetch_failed ''Failed to fetch'')] = Some s \<and>
        app_error s = Some ''Failed to fetch''"
  using fetch_error_recorded [of No_item "''Failed to fetch''"] by auto

text \<open>
  C25: a stored string that \<open>JSON.parse\<close> rejects is caught: the error is
  recorded, loading ends with an empty list, and no fetch is made.
\<close>

theorem malformed_storage_caught:
  "\<exists>s. app_run (init_app (Item_malformed msg)) [Mount] = Some s \<and>
     app_error s = Some msg \<and> \<not> app_loading s \<and> app_todos s = [] \<and>
     app_phase s = Ready \<and> app_storage s = Item_malformed msg"
  by simp

text \<open>
  C26: an empty seed is cached: from any state with a pending seed fetch, an empty
  response is written as the empty list (\<open>"[]"\<close>, a truthy string) and loading
  ends; after a reload the mount effect adopts the empty list from storage and does
  not fetch again.
\<close>

theorem empty_seed_cached:
  assumes "app_phase s = Fetching"
  shows "\<exists>s'. app_run s [Fetch_done (Fetch_ok []), Reload, Mount] = Some s' \<and>
           app_phase s' = Ready \<and> \<not> app_loading s' \<and> app_todos s' = [] \<and> app_storage s' = Item_json []"
  using assms by (simp add: fetchTodos_resume_def reload_def)

theorem empty_seed_cached_witness:
  "\<exists>s'. app_run (fetchTodos_start (init_app No_item)) [Fetch_done (Fetch_ok []), Reload, Mount] = Some s' \<and>
     app_phase s' = Ready \<and> \<not> app_loading s' \<and> app_todos s' = [] \<and> app_storage s' = Item_json []"
  using empty_seed_cached [of "fetchTodos_start (init_app No_item)"] by simp

text \<open>
  C27: seeding happens at most once per storage: from a reachable state whose
  storage holds a list or an unparseable string, no sequence of events ever reaches a
  pending fetch.
\<close>

theorem no_refetch_once_written:
  assumes "reachable s" and "written (app_storage s)" and "app_run s es = Some s'"
  shows "app_phase s' \<noteq> Fetching"
  using assms
proof (induction es arbitrary: s)
  case Nil
  with reachable_inv [OF Nil.prems(1)] show ?case by (auto simp: app_inv_def)
next
  case (Cons e es)
  from Cons.prems(3) obtain s1 where s1: "app_step s e = Some s1" and run: "app_run s1 es = Some s'"
    by (auto split: option.splits)
  from Cons.prems(1) s1 have "reachable s1" by (rule reachable.step)
  moreover from s1 Cons.prems(2) have "written (app_storage s1)" by (rule app_step_written)
  ultimately show ?case using run by (rule Cons.IH)
qed

theorem no_refetch_once_written_witness:
  "app_phase (the (app_run (init_app (Item_json [])) [Mount, Reload, Mount])) \<noteq> Fetching"
proof -
  have "\<exists>s'. app_run (init_app (Item_json [])) [Mount, Reload, Mount] = Some s'"
    by (simp add: reload_def)
  then obtain s' where run: "app_run (init_app (Item_json [])) [Mount, Reload, Mount] = Some s'"
    by blast
  have "app_phase s' \<noteq> Fetching"
    by (rule no_refetch_once_written [OF reachable.start _ run]) simp
  with run show ?thesis by simp
qed

end
