(* ===== verification/Storage.thy ===== *)
theory Storage
  imports JsonParse App "HOL-Library.Monad_Syntax"
begin

text \<open>
  The storage slot as text. \<open>JSON_stringify_todos\<close> is what the persistence effect
  and the seeding code write (App.js lines 31 and 43): each task an object with the
  properties it has, in the order the object literal of \<open>addTodo\<close> and the seed API
  give them, an absent property left out. \<open>json_to_todo\<close> reads a parsed object
  back by property name (a later duplicate wins, as in \<open>JSON.parse\<close>).
  \<open>read_slot\<close> is the start of \<open>fetchTodos\<close> (lines 17--19): no item, an empty
  string (falsy, so the fetch runs), a string \<open>JSON.parse\<close> rejects (it throws a
  \<open>SyntaxError\<close>; the message text is the engine's and is not modelled), or a parsed
  list of tasks: the \<open>slot\<close> of the App theory. A parsed value that is not a list of
  task objects is outside the model (\<open>None\<close>).
\<close>

definition opt_member :: "string \<Rightarrow> ('a \<Rightarrow> json) \<Rightarrow> 'a option \<Rightarrow> (string \<times> json) list" where
  "opt_member k f v = (case v of None \<Rightarrow> [] | Some x \<Rightarrow> [(k, f x)])"

definition todo_to_json :: "todo \<Rightarrow> json" where
  "todo_to_json t =
     JObj (opt_member ''userId'' JNum (userId t) @ [(''id'', JNum (todo_id t))] @
           opt_member ''createdAt'' JNum (createdAt t) @ [(''title'', JStr (title t))] @
           opt_member ''description'' JStr (description t) @
           opt_member ''priority'' JStr (priority t) @
           opt_member ''dueDate'' JStr (dueDate t) @ [(''completed'', JBool (completed t))])"

definition JSON_stringify_todos :: "todo list \<Rightarrow> string" where
  "JSON_stringify_todos todos = json_print (JArr (map todo_to_json todos))"

fun as_num :: "json \<Rightarrow> int option" where
  "as_num (JNum n) = Some n"
| "as_num _ = None"

fun as_str :: "json \<Rightarrow> string option" where
  "as_str (JStr s) = Some s"
| "as_str _ = None"

fun as_bool :: "json \<Rightarrow> bool option" where
  "as_bool (JBool b) = Some b"
| "as_bool _ = None"

definition opt_get :: "(json \<Rightarrow> 'a option) \<Rightarrow> json option \<Rightarrow> 'a option option" where
  "opt_get f v = (case v of None \<Rightarrow> Some None | Some j \<Rightarrow> map_option Some (f j))"

definition json_to_todo :: "json \<Rightarrow> todo option" where
  "json_to_todo j =
     (case j of
        JObj ms \<Rightarrow>
          (let get = map_of (rev ms) in
           do {
             i \<leftarrow> get ''id'' \<bind> as_num;
             c \<leftarrow> opt_get as_num (get ''createdAt'');
             t \<leftarrow> get ''title'' \<bind> as_str;
             d \<leftarrow> opt_get as_str (get ''description'');
             p \<leftarrow> opt_get as_str (get ''priority'');
             dd \<leftarrow> opt_get as_str (get ''dueDate'');
             b \<leftarrow> get ''completed'' \<bind> as_bool;
             u \<leftarrow> opt_get as_num (get ''userId'');
             Some \<lparr>todo_id = i, createdAt = c, title = t, description = d, priority = p,
                   dueDate = dd, completed = b, userId = u\<rparr>
           })
      | _ \<Rightarrow> None)"

definition read_slot :: "string option \<Rightarrow> slot option" where
  "read_slot item =
     (case item of
        None \<Rightarrow> Some No_item
      | Some s \<Rightarrow>
          if s = [] then Some Item_empty
          else
            (case JSON_parse s of
               None \<Rightarrow> Some (Item_malformed ''SyntaxError'')
             | Some (JArr vs) \<Rightarrow> map_option Item_json (those (map json_to_todo vs))
             | Some _ \<Rightarrow> None))"

subsection \<open>Reading back what was written\<close>

lemma json_to_todo_to_json: "json_to_todo (todo_to_json t) = Some t"
  by (simp add: json_to_todo_def todo_to_json_def opt_member_def opt_get_def
      split: option.splits)

lemma those_map_Some: "(\<forall>x\<in>set xs. f x = Some (g x)) \<Longrightarrow> those (map f xs) = Some (map g xs)"
  by (induction xs) auto

text \<open>
  C33: what the persistence effect writes, the mount effect reads back as the same
  list: the stored text parses, and every task comes back with every field as it was.
  This is what the App theory assumes when it stores the list itself in the slot.
\<close>

theorem stored_list_read_back: "read_slot (Some (JSON_stringify_todos todos)) = Some (Item_json todos)"
proof -
  have "those (map json_to_todo (map todo_to_json todos)) = Some todos"
    using those_map_Some [of todos "json_to_todo \<circ> todo_to_json" id] by (simp add: json_to_todo_to_json)
  moreover have "JSON_parse (JSON_stringify_todos todos) = Some (JArr (map todo_to_json todos))"
    unfolding JSON_stringify_todos_def by (rule JSON_parse_print)
  moreover have "JSON_stringify_todos todos \<noteq> []" by (simp add: JSON_stringify_todos_def)
  ultimately show ?thesis by (simp add: read_slot_def)
qed

end
