(* ===== verification/Render.thy ===== *)
theory Render
  imports App Projector
begin

text \<open>
  What the two components render, as data. \<open>TodoList\<close> (TodoList.js lines 46--101)
  shows a loading card when its \<open>loading\<close> prop is truthy, otherwise a card with the
  count of the view, the two selects and either the empty state or one \<open>TodoItem\<close>
  per task of the view, keyed by the task's id. \<open>App\<close> (App.js lines 78--102) shows
  a loading screen while \<open>loading\<close> holds, otherwise the header, the add form, the
  list and the statistics; it passes \<open>TodoList\<close> no \<open>loading\<close> prop, so the prop
  is \<open>undefined\<close>. The header, the form and the statistics have no data of their
  own in the view.
\<close>

datatype list_body = Empty_state | Items "(int \<times> todo) list"

datatype list_view =
    List_loading
  | List_card nat string string list_body

definition TodoList_render :: "bool option \<Rightarrow> todo list \<Rightarrow> list_ui \<Rightarrow> list_view" where
  "TodoList_render loading todos u =
     (if loading = Some True then List_loading
      else
        (let filteredTodos = getFilteredTodos todos (ui_filter u) (ui_sortBy u) in
         List_card (length filteredTodos) (ui_filter u) (ui_sortBy u)
           (if length filteredTodos = 0 then Empty_state
            else Items (map (\<lambda>t. (todo_id t, t)) filteredTodos))))"

datatype app_view = Loading_screen | Main_view list_view

definition App_render :: "app \<Rightarrow> list_ui \<Rightarrow> app_view" where
  "App_render s u =
     (if app_loading s then Loading_screen else Main_view (TodoList_render None (app_todos s) u))"

fun rows_of :: "list_body \<Rightarrow> (int \<times> todo) list" where
  "rows_of Empty_state = []"
| "rows_of (Items rows) = rows"

subsection \<open>Shared facts\<close>

lemma TodoList_render_card:
  "TodoList_render None todos u =
     List_card (length (getFilteredTodos todos (ui_filter u) (ui_sortBy u))) (ui_filter u) (ui_sortBy u)
       (if getFilteredTodos todos (ui_filter u) (ui_sortBy u) = [] then Empty_state
        else Items (map (\<lambda>t. (todo_id t, t)) (getFilteredTodos todos (ui_filter u) (ui_sortBy u))))"
  by (simp add: TodoList_render_def Let_def)

lemma distinct_ids_view:
  "ids_distinct todos \<Longrightarrow> ids_distinct (getFilteredTodos todos filt sortBy)"
  by (simp add: getFilteredTodos_def sortTodos_def distinct_map_filter)


subsection \<open>Properties of the rendered view\<close>

text \<open>
  C31: the recorded error is never shown: what \<open>App\<close> renders does not depend on
  \<open>error\<close> at all.
\<close>

theorem error_never_rendered: "App_render (s\<lparr>app_error := e\<rparr>) u = App_render s u"
  by (simp add: App_render_def)

text \<open>
  C32: after a failed seed fetch the user sees the list card with a count of 0 and
  the empty state, exactly as for an empty list; nothing indicates the failure.
\<close>

theorem fetch_error_renders_empty_list:
  assumes "st = No_item \<or> st = Item_empty"
  shows "\<exists>s. app_run (init_app st) [Mount, Fetch_done (Fetch_failed msg)] = Some s \<and>
           App_render s u = Main_view (List_card 0 (ui_filter u) (ui_sortBy u) Empty_state)"
  using assms
  by (auto simp: fetchTodos_resume_def App_render_def TodoList_render_card
      getFilteredTodos_def sortTodos_def)

theorem fetch_error_renders_empty_list_witness:
  "\<exists>s. app_run (init_app No_item) [Mount, Fetch_done (Fetch_failed ''Failed to fetch'')] = Some s \<and>
     App_render s init_list_ui = Main_view (List_card 0 ''all'' ''created'' Empty_state)"
  using fetch_error_renders_empty_list [of No_item "''Failed to fetch''" init_list_ui]
  by (simp add: init_list_ui_def)

text \<open>
  C35: when the task ids are distinct, the React keys of the rendered rows
  (\<open>key={todo.id}\<close>) are distinct, under every selection.
\<close>

theorem row_keys_distinct:
  assumes "ids_distinct todos" and "TodoList_render None todos u = List_card n f b body"
  shows "distinct (map fst (rows_of body))"
proof -
  have "ids_distinct (getFilteredTodos todos (ui_filter u) (ui_sortBy u))"
    using assms(1) by (rule distinct_ids_view)
  with assms(2) show ?thesis
    by (auto simp: TodoList_render_card comp_def split: if_splits)
qed

theorem row_keys_distinct_witness:
  "distinct (map fst (rows_of (Items [(1, remote_todo 1 1 ''a'' False), (2, remote_todo 1 2 ''b'' True)])))"
  by (rule row_keys_distinct [of "[remote_todo 1 1 ''a'' False, remote_todo 1 2 ''b'' True]"
        init_list_ui 2 "''all''" "''created''"])
    (simp_all add: TodoList_render_card init_list_ui_def getFilteredTodos_def sortTodos_def
       js_sort_def sort_compare_def cmp_created_def)

end
