(* ===== verification/Session.thy ===== *)
theory Session
  imports Render
begin

text \<open>
  \<open>App\<close> and \<open>TodoList\<close> together. The selections \<open>filter\<close> and \<open>sortBy\<close> are
  local state of \<open>TodoList\<close> (TodoList.js lines 6--7): they exist while the list is
  mounted, which is exactly while \<open>App\<close> is not showing its loading screen (App.js
  lines 78--80), and they start from \<open>useState("all")\<close> and
  \<open>useState("created")\<close> each time the list mounts. A session pairs the App state
  with the list's selections, \<open>None\<close> while the list is not mounted. Its events are
  the App events and the two selects' \<open>onChange\<close> (lines 62--64 and 72--74), which
  can only choose one of the options the select offers. A reload is a new page: the
  whole component tree and its state are gone, only the storage remains.
\<close>

record session =
  ses_app :: app
  ses_list :: "list_ui option"

datatype ses_event = App_event app_event | Select_filter string | Select_sort string

definition mount_list :: "app \<Rightarrow> list_ui option \<Rightarrow> list_ui option" where
  "mount_list a u = (if app_loading a then None else (case u of None \<Rightarrow> Some init_list_ui | Some v \<Rightarrow> Some v))"

definition init_session :: "slot \<Rightarrow> session" where
  "init_session st = \<lparr>ses_app = init_app st, ses_list = None\<rparr>"

fun ses_step :: "session \<Rightarrow> ses_event \<Rightarrow> session option" where
  "ses_step s (App_event e) =
     (case app_step (ses_app s) e of
        None \<Rightarrow> None
      | Some a \<Rightarrow> Some \<lparr>ses_app = a, ses_list = mount_list a (if e = Reload then None else ses_list s)\<rparr>)"
| "ses_step s (Select_filter v) =
     (case ses_list s of
        Some u \<Rightarrow> if v \<in> set filter_options then Some (s\<lparr>ses_list := Some (u\<lparr>ui_filter := v\<rparr>)\<rparr>) else None
      | None \<Rightarrow> None)"
| "ses_step s (Select_sort v) =
     (case ses_list s of
        Some u \<Rightarrow> if v \<in> set sort_options then Some (s\<lparr>ses_list := Some (u\<lparr>ui_sortBy := v\<rparr>)\<rparr>) else None
      | None \<Rightarrow> None)"

fun ses_run :: "session \<Rightarrow> ses_event list \<Rightarrow> session option" where
  "ses_run s [] = Some s"
| "ses_run s (e # es) = (case ses_step s e of None \<Rightarrow> None | Some s' \<Rightarrow> ses_run s' es)"

inductive ses_reachable :: "session \<Rightarrow> bool" where
  start: "ses_reachable (init_session st)"
| step: "ses_reachable s \<Longrightarrow> ses_step s e = Some s' \<Longrightarrow> ses_reachable s'"

definition ses_view :: "session \<Rightarrow> app_view" where
  "ses_view s = (case ses_list s of None \<Rightarrow> Loading_screen | Some u \<Rightarrow> App_render (ses_app s) u)"

subsection \<open>Shared facts\<close>

lemma mount_list_simps [simp]:
  "app_loading a \<Longrightarrow> mount_list a u = None"
  "\<not> app_loading a \<Longrightarrow> mount_list a None = Some init_list_ui"
  "\<not> app_loading a \<Longrightarrow> mount_list a (Some v) = Some v"
  by (simp_all add: mount_list_def)

definition ses_inv :: "session \<Rightarrow> bool" where
  "ses_inv s \<longleftrightarrow> reachable (ses_app s) \<and> (ses_list s = None \<longleftrightarrow> app_loading (ses_app s)) \<and>
     (\<forall>u. ses_list s = Some u \<longrightarrow> ui_reachable u)"

lemma ses_step_inv:
  assumes "ses_inv s" and "ses_step s e = Some s'"
  shows "ses_inv s'"
proof (cases e)
  case (App_event ae)
  with assms obtain a where a: "app_step (ses_app s) ae = Some a"
    and s': "s' = \<lparr>ses_app = a, ses_list = mount_list a (if ae = Reload then None else ses_list s)\<rparr>"
    by (auto split: option.splits)
  have "reachable a" using assms(1) a by (auto simp: ses_inv_def intro: reachable.step)
  with assms(1) s' show ?thesis
    by (auto simp: ses_inv_def mount_list_def intro: ui_reachable.init split: option.splits)
next
  case (Select_filter v)
  with assms show ?thesis
    by (auto simp: ses_inv_def intro: ui_reachable.set_filter split: option.splits if_splits)
next
  case (Select_sort v)
  with assms show ?thesis
    by (auto simp: ses_inv_def intro: ui_reachable.set_sortBy split: option.splits if_splits)
qed

lemma ses_reachable_inv: "ses_reachable s \<Longrightarrow> ses_inv s"
proof (induction rule: ses_reachable.induct)
  case (start st)
  show ?case by (simp add: ses_inv_def init_session_def reachable.start)
next
  case (step s e s')
  then show ?case using ses_step_inv by blast
qed

lemma ses_reachable_loaded:
  "ses_reachable \<lparr>ses_app = fetchTodos_start (init_app (Item_json xs)), ses_list = Some init_list_ui\<rparr>"
proof (rule ses_reachable.step)
  show "ses_reachable (init_session (Item_json xs))" by (rule ses_reachable.start)
  show "ses_step (init_session (Item_json xs)) (App_event Mount) =
      Some \<lparr>ses_app = fetchTodos_start (init_app (Item_json xs)), ses_list = Some init_list_ui\<rparr>"
    by (simp add: init_session_def)
qed

subsection \<open>Properties of the session\<close>



text \<open>
  C28: the selections of the list are kept across every user event but are lost on a
  reload, while the list itself is kept: from a reachable session showing a non-empty
  list under selections \<open>u\<close>, a user event leaves \<open>u\<close> in place, and a reload followed
  by the mount effect shows the same tasks under the default selections
  (\<open>all\<close>, \<open>created\<close>).
\<close>

theorem selections_reset_on_reload:
  assumes "ses_reachable s" and "ses_list s = Some u" and "app_todos (ses_app s) \<noteq> []"
  shows "(\<forall>acts. \<exists>s'. ses_step s (App_event (User acts)) = Some s' \<and> ses_list s' = Some u) \<and>
         (\<exists>s'. ses_run s [App_event Reload, App_event Mount] = Some s' \<and>
            ses_list s' = Some init_list_ui \<and> app_todos (ses_app s') = app_todos (ses_app s))"
proof -
  have inv: "ses_inv s" using assms(1) by (rule ses_reachable_inv)
  then have nl: "\<not> app_loading (ses_app s)" and r: "reachable (ses_app s)"
    using assms(2) by (auto simp: ses_inv_def)
  have st: "app_storage (ses_app s) = Item_json (app_todos (ses_app s))"
    using reachable_inv [OF r] assms(3) by (simp add: app_inv_def)
  show ?thesis
    using nl st by (simp add: assms(2) reload_def)
qed

theorem selections_reset_on_reload_witness:
  "(\<forall>acts. \<exists>s'. ses_step \<lparr>ses_app = fetchTodos_start (init_app (Item_json [remote_todo 1 1 ''a'' False])),
        ses_list = Some \<lparr>ui_filter = ''completed'', ui_sortBy = ''created''\<rparr>\<rparr> (App_event (User acts)) = Some s' \<and>
      ses_list s' = Some \<lparr>ui_filter = ''completed'', ui_sortBy = ''created''\<rparr>) \<and>
   (\<exists>s'. ses_run \<lparr>ses_app = fetchTodos_start (init_app (Item_json [remote_todo 1 1 ''a'' False])),
        ses_list = Some \<lparr>ui_filter = ''completed'', ui_sortBy = ''created''\<rparr>\<rparr> [App_event Reload, App_event Mount] = Some s' \<and>
      ses_list s' = Some init_list_ui \<and> app_todos (ses_app s') = [remote_todo 1 1 ''a'' False])"
proof -
  let ?A = "\<lparr>ses_app = fetchTodos_start (init_app (Item_json [remote_todo 1 1 ''a'' False])), ses_list = Some init_list_ui\<rparr>"
  let ?B = "\<lparr>ses_app = fetchTodos_start (init_app (Item_json [remote_todo 1 1 ''a'' False])),
        ses_list = Some \<lparr>ui_filter = ''completed'', ui_sortBy = ''created''\<rparr>\<rparr>"
  have sel: "ses_step ?A (Select_filter ''completed'') = Some ?B"
    by (simp add: filter_options_def init_list_ui_def)
  have r: "ses_reachable ?B"
    by (rule ses_reachable.step [OF ses_reachable_loaded [of "[remote_todo 1 1 ''a'' False]"] sel])
  show ?thesis using selections_reset_on_reload [OF r] by simp
qed

end
