(* ===== verification/Spec2Isabelle.thy ===== *)
theory Spec2Isabelle
  imports StoreSpec DateText Storage Session
begin

text \<open>
  \<^bold>\<open>A verification development for the todo-list application\<close>
  (\<^verbatim>\<open>src/src/App.js\<close>, \<^verbatim>\<open>src/src/components/TodoList.js\<close>).

  \<^bold>\<open>The program.\<close> \<open>App\<close> owns the task list (\<open>useState\<close>), loads it on mount
  from \<^verbatim>\<open>localStorage\<close> or seeds it from a remote API (\<open>fetchTodos\<close>), mirrors
  it to storage after every change (a \<open>useEffect\<close> on \<open>todos\<close>) and offers four
  handlers, \<open>addTodo\<close>, \<open>toggleTodo\<close>, \<open>deleteTodo\<close>, \<open>updateTodo\<close>, which the
  add form and the item editor call. \<open>TodoList\<close> holds two selections (\<open>filter\<close>,
  \<open>sortBy\<close>) and derives the view with \<open>getFilteredTodos\<close> and \<open>sortTodos\<close>.
  The form, the item editor and the statistics panel are files that are not part
  of the sources; they only call the handlers.

  \<^bold>\<open>Theories.\<close>
  \<^item> \<open>Prelude\<close>: JavaScript values as the program uses them: a number is an \<open>int\<close>
    or \<open>NaN\<close> (\<open>js_num\<close>, \<open>None\<close> for \<open>NaN\<close>), an absent property is \<open>None\<close>;
    subtraction \<open>js_sub\<close>, truthiness \<open>js_truthy_str\<close>, \<open>||\<close> as \<open>js_or\<close>, object
    spread; the collection \<open>js_simps\<close> and list lemmas shared by the components.
  \<^item> \<open>JsSort\<close>: \<open>Array.prototype.sort\<close>. \<open>js_sort\<close> is a stable insertion sort
    that asks only whether \<open>comparefn(x, y) < 0\<close>, reading \<open>NaN\<close> as 0 as
    \<open>SortCompare\<close> does. Lemma \<open>js_sort_sort_key\<close>: for a comparator that agrees in
    sign with a key on the list it equals the library's stable \<open>sort_key\<close>; since
    ECMAScript requires a stable sort for consistent comparators, every conforming
    engine agrees with the model there. Where the program's comparators are
    inconsistent (C7, C8) the engine's order is not fixed by the standard and the
    model picks the insertion order.
  \<^item> \<open>JsDate\<close>: \<open>new Date(s)\<close> on \<^verbatim>\<open>YYYY-MM-DD\<close> strings (what a date input
    yields), as milliseconds at UTC midnight, with V8's range checks.
  \<^item> \<open>DateOrder\<close>: the proleptic Gregorian calendar (\<open>is_leap\<close>,
    \<open>days_in_month\<close>, \<open>valid_date\<close>) and the decomposition of the day number into
    the start of a March-based year (\<open>year_start\<close>) and a month offset
    (\<open>cum_days\<close>), by which the day number is strictly increasing in calendar order.
  \<^item> \<open>DateText\<close>: the order of the date strings themselves (\<open>List_Lexorder\<close> on
    strings, characters by code): for \<^verbatim>\<open>YYYY-MM-DD\<close> strings it is the order of
    the (year, month, day) triples; \<open>calendar_date_str\<close> says a string is a valid
    date.
  \<^item> \<open>Todo\<close>: the task record (\<open>todo\<close>), the add-form input (\<open>todo_input\<close>), the
    task literal of \<open>addTodo\<close> (\<open>newTodo\<close>), a task as the seed API returns it
    (\<open>remote_todo\<close>), the \<open>newData\<close> of \<open>updateTodo\<close> (\<open>patch\<close>) and
    \<open>{...todo, ...newData}\<close> (\<open>spread_todo\<close>).
  \<^item> \<open>ReactState\<close>: the update queue of a \<open>useState\<close> setter: values and
    updater functions applied in order (\<open>flush_updates\<close>).
  \<^item> \<open>Store\<close>: the four handlers of \<open>App\<close> (App.js 47--76) as functions on the list,
    \<open>setTodos_call\<close> for how each hands its result to \<open>setTodos\<close>, and the
    interface datatype \<open>action\<close> through which the form and the editor call them.
  \<^item> \<open>Projector\<close>: \<open>TodoList\<close>: \<open>priorityOrder\<close>, the three comparators,
    \<open>sortTodos\<close>, \<open>getFilteredTodos\<close>, the selections \<open>list_ui\<close> with the option
    values of the two selects and the reachable selections \<open>ui_reachable\<close>.
  \<^item> \<open>App\<close>: \<open>App\<close> as a state machine. The state \<open>app\<close> holds \<open>todos\<close>,
    \<open>loading\<close>, \<open>error\<close>, the storage slot (\<open>slot\<close>: the stored string classified
    by what \<open>JSON.parse\<close> makes of it) and how far \<open>fetchTodos\<close> has run
    (\<open>phase\<close>). \<open>app_step\<close> takes one event: the mount effect
    (\<open>fetchTodos_start\<close>, up to the \<open>await\<close>), the fetch completing
    (\<open>fetchTodos_resume\<close>), a user event (\<open>user_batch\<close>: handler calls flushed,
    then the persistence effect \<open>persist_todos\<close>) or a reload; \<open>None\<close> where the
    event cannot happen (the form and list are rendered only when \<open>loading\<close> is
    false). \<open>reachable\<close> is the inductive set of reachable states.
  \<^item> \<open>JsonText\<close>, \<open>JsonParse\<close>, \<open>Storage\<close>: the text in the storage slot.
    \<open>json_print\<close> is \<open>JSON.stringify\<close> on JSON values (\<open>json\<close>), \<open>JSON_parse\<close> is
    \<open>JSON.parse\<close>: a lexer \<open>lex\<close> (a \<open>function\<close> with a termination proof by the
    measure \<open>length\<close>) and a stack parser \<open>p_run\<close>. \<open>Storage\<close> serialises tasks
    (\<open>todo_to_json\<close>, \<open>JSON_stringify_todos\<close>: App.js lines 31 and 43) and reads the
    slot back (\<open>json_to_todo\<close>, \<open>read_slot\<close>: lines 17--19) into the \<open>slot\<close> of
    the App theory, which is therefore the parse result of the stored text.
  \<^item> \<open>Render\<close>: what \<open>App\<close> and \<open>TodoList\<close> render, as data: \<open>App_render\<close>
    (App.js 78--102) shows the loading screen or the main view, \<open>TodoList_render\<close>
    (TodoList.js 46--101) the loading card or the list card with the count, the two
    selections and the empty state or the rows keyed by id (\<open>list_view\<close>).
  \<^item> \<open>StoreSpec\<close>: an abstract store, a map from id to task with the four
    operations (\<open>abs_action\<close>), the abstraction \<open>store_abs\<close> of the list, and the
    shape of a task made by the form (\<open>task_shaped\<close>).
  \<^item> \<open>Session\<close>: \<open>App\<close> and the \<open>TodoList\<close> it mounts, together: a
    \<open>session\<close> pairs the App state with the list's selections, which exist only
    while the list is mounted (\<open>loading\<close> false, App.js 78--80) and start from
    their initial values at each mount (\<open>mount_list\<close>). \<open>ses_step\<close> takes an App
    event or a change of one select (TodoList.js 60--79); \<open>ses_reachable\<close> is the
    inductive set of reachable sessions.
  \<^item> \<open>Spec2Isabelle\<close> (this theory): properties that span components.

  \<^bold>\<open>Properties\<close> (claim ids as in the manifest).
  \<^item> View (Projector): C1 the completed filter is exact; C2 the pending option never
    filters (the code compares with \<open>''false''\<close>); C3, C6 priority and creation
    sorts are the stable key sorts; C4 the priority view is non-increasing; C5 the
    due-date view is the dated tasks by date, then the undated ones; C7, C8 the
    due-date and creation comparators are inconsistent; C29 the default sort keeps
    a seeded list in order.
  \<^item> Handlers (Store): C9 an unknown id is a no-op; C11 defaults of an added task;
    C12, C13 toggling; C15 delete;
    C16 distinct ids are kept; C17, C18 how calls batched before one render compose.
  \<^item> Lifecycle (App): C19 the invariant of reachable states (rule induction over
    \<open>reachable\<close>); C20 reload restores a non-empty list; C21 an emptied list is
    not persisted and comes back; C22 seeding takes the first five records; C23
    seeded tasks lack the task defaults; C24 fetch errors; C25 a malformed stored
    value is caught; C26 from any pending fetch, an empty seed is cached as \<open>"[]"\<close> and not
    fetched again after a reload; C27 seeding happens at most once.
  \<^item> Rendering (Render): C31 the recorded error is never rendered; C32 a failed
    seed shows as an empty list; C35 the row keys are distinct.
  \<^item> Storage text (Storage, JsonParse): C33 the text the persistence effect writes is
    read back as the same list (a parse/print round trip through the JSON lexer and
    parser).
  \<^item> Specification (StoreSpec): C36 the handlers refine the abstract map store
    (\<open>store_abs (apply_action a xs) = abs_action a (store_abs xs)\<close>); C37 the
    handlers keep the shape of form-made tasks.
  \<^item> Dates (JsDate, DateOrder, DateText): C39 every value the due-date comparator
    returns is below \<open>2^53\<close> in magnitude, so the double subtraction is exact;
    C14 with valid due dates the due-date view is the dated tasks sorted by their
    due-date string, then the undated ones.
  \<^item> Sessions (Session): C34 the invariant of reachable sessions (the list's
    selections exist exactly when the App is not loading, and are reachable ones);
    C28 user events keep the selections, and a reload followed by the mount resets
    them to their initial values while the list is restored.
  \<^item> Across components (here): C10 add then delete restores every view; C30 an edit
    that leaves the list non-empty survives a reload; C38 (liveness) from every
    reachable state the outstanding lifecycle events lead, whatever the fetch
    returns, to a state in which the list is rendered.

  \<^bold>\<open>Bounds and termination.\<close> Every function is structurally recursive or a fold
  over a finite list, except the JSON lexer, whose termination is proved by the
  measure \<open>length\<close> (the \<open>termination\<close> proof of \<open>lex\<close>); no fuel is needed, and the lifecycle's only waiting state
  (the pending fetch) is left by one event (C38). JavaScript numbers are modelled
  as unbounded integers: the values involved (clock readings near
  \<open>1.7 \<times> 10^12\<close>, ranks of at most 3, date differences) stay below \<open>2^53\<close>, where
  doubles are exact; for dates this is C39, through the lemma
  \<open>js_Date_bounds\<close>, which also shows that \<open>TimeClip\<close>, left out of
  \<open>js_Date\<close>, never applies to a four-digit year.

  \<^bold>\<open>Not modelled.\<close> The JSX markup and CSS; TodoItem, TodoForm and TodoStats,
  whose files are not in the sources (their calls are the \<open>action\<close> datatype);
  in the storage text, numbers with a fraction or an exponent and \<^verbatim>\<open>\u\<close> escapes
  above \<open>0xFF\<close> (HOL's \<open>char\<close> has 8 bits; stored lists contain neither), the text
  of a \<open>SyntaxError\<close>'s message, and parsed JSON that is not an array of task objects;
  the order of properties in a serialised task, which is the order of \<open>addTodo\<close>'s
  literal and the seed API but not, after an edit adds a property, that of the object
  spread (only \<open>JSON.parse\<close> reads the text, and it looks properties up by name); the merge phase of V8's TimSort for
  arrays of 64 or more elements and engines other than V8 for inconsistent
  comparators; date strings in formats other than \<^verbatim>\<open>YYYY-MM-DD\<close>;
  \<open>priorityOrder\<close> lookups of inherited property names such as
  \<open>''constructor''\<close>; React StrictMode's double effects; the header text and
  CSS classes of the rendered markup.

  \<^bold>\<open>Plan for later work.\<close> The item editor's edit flow and the add form's
  validation once their sources are available.
\<close>

section \<open>Properties across the Store and the Projector\<close>

text \<open>
  C10: adding a task and deleting it again by its new id leaves every view of the
  list as it was (every filter, every sort order), provided the clock reading used as
  the id is not already the id of a task.
\<close>

theorem add_then_delete_same_view:
  assumes "a \<notin> set (map todo_id todos)"
  shows "getFilteredTodos (deleteTodo a (addTodo a b d todos)) filt sortBy =
         getFilteredTodos todos filt sortBy"
  using assms by (simp add: deleteTodo_addTodo_fresh)

theorem add_then_delete_same_view_witness:
  "getFilteredTodos (deleteTodo 9 (addTodo 9 9
      \<lparr>in_title = ''Buy milk'', in_description = None, in_priority = None, in_dueDate = None\<rparr>
      [remote_todo 1 1 ''a'' False])) ''all'' ''created'' =
   getFilteredTodos [remote_todo 1 1 ''a'' False] ''all'' ''created''"
  by (rule add_then_delete_same_view) simp

section \<open>Properties across the Store and the Seeder\<close>

text \<open>
  C30: a user event that leaves the list non-empty is persisted: after a reload and
  the mount effect the application shows the list as the event left it.
\<close>

theorem user_event_survives_reload:
  assumes "\<not> app_loading s" and "app_todos (user_batch acts s) \<noteq> []"
  shows "\<exists>s'. app_run s [User acts, Reload, Mount] = Some s' \<and>
           app_todos s' = app_todos (user_batch acts s) \<and> \<not> app_loading s'"
  using assms by (simp add: user_batch_def reload_def)

theorem user_event_survives_reload_witness:
  "\<exists>s'. app_run (fetchTodos_start (init_app (Item_json [remote_todo 1 1 ''a'' False])))
          [User [Toggle 1], Reload, Mount] = Some s' \<and>
        app_todos s' = [(remote_todo 1 1 ''a'' False)\<lparr>completed := True\<rparr>]"
proof -
  let ?s = "fetchTodos_start (init_app (Item_json [remote_todo 1 1 ''a'' False]))"
  have t: "app_todos (user_batch [Toggle 1] ?s) = [(remote_todo 1 1 ''a'' False)\<lparr>completed := True\<rparr>]"
    by (simp add: toggleTodo_def)
  have "\<not> app_loading ?s" by simp
  from user_event_survives_reload [OF this, of "[Toggle 1]"] t obtain s'
    where "app_run ?s [User [Toggle 1], Reload, Mount] = Some s'"
      and "app_todos s' = app_todos (user_batch [Toggle 1] ?s)"
    by auto
  with t show ?thesis by auto
qed

section \<open>Properties across the Seeder and the Renderer\<close>

text \<open>
  C38: the loading screen always gives way: from every reachable state, whatever the
  seed fetch returns, at most the two outstanding lifecycle events (the mount effect
  and the fetch completing) lead to a state in which \<open>App\<close> renders the list.
\<close>

theorem loading_screen_ends:
  assumes "reachable s"
  shows "\<exists>evs. set evs \<subseteq> {Mount, Fetch_done r} \<and> length evs \<le> 2 \<and>
           (\<exists>s'. app_run s evs = Some s' \<and> App_render s' u = Main_view (TodoList_render None (app_todos s') u))"
proof -
  have inv: "app_inv s" using assms by (rule reachable_inv)
  consider "app_phase s = Ready" | "app_phase s = Fetching" | "app_phase s = Mounting"
    by (cases "app_phase s") auto
  then show ?thesis
  proof cases
    case 1
    with inv have "\<not> app_loading s" by (simp add: app_inv_def)
    then show ?thesis by (intro exI [of _ "[]"]) (simp add: App_render_def)
  next
    case 2
    then show ?thesis
      by (intro exI [of _ "[Fetch_done r]"])
        (auto simp: App_render_def fetchTodos_resume_def Let_def split: fetch_result.splits)
  next
    case 3
    show ?thesis
    proof (cases "written (app_storage s)")
      case True
      with 3 show ?thesis
        by (intro exI [of _ "[Mount]"]) (auto simp: App_render_def elim: written.elims)
    next
      case False
      with 3 show ?thesis
        by (intro exI [of _ "[Mount, Fetch_done r]"])
          (auto simp: App_render_def fetchTodos_resume_def Let_def
             split: fetch_result.splits slot.splits)
    qed
  qed
qed

theorem loading_screen_ends_witness:
  "\<exists>evs. set evs \<subseteq> {Mount, Fetch_done (Fetch_failed ''x'')} \<and> length evs \<le> 2 \<and>
     (\<exists>s'. app_run (init_app No_item) evs = Some s' \<and>
        App_render s' init_list_ui = Main_view (TodoList_render None (app_todos s') init_list_ui))"
  by (rule loading_screen_ends) (rule reachable.start)

end
